theory Spec2Isabelle
  imports Complex_Main "HOL-Library.Code_Target_Numeral"
begin

section \<open>Vibe Surfer: the simulation loop of \<open>src/App.tsx\<close>\<close>

text \<open>
  The program is one React function component. Its state lives in three places, and the
  embedding keeps them apart because the code reads them in different ways:

  \<^item> React state (\<open>useState\<close>): \<open>gameState\<close>, \<open>score\<close>, \<open>highScore\<close>, \<open>auraCount\<close>,
    \<open>isFlowState\<close>, \<open>playerLane\<close>, \<open>gameOverText\<close>, \<open>isShaking\<close>. A function of the
    component reads these as the constants of the render that created it; only an updater
    function (\<open>setScore(s => s + 1)\<close>) sees the latest value. The constants of one render
    are a \<open>view\<close>; every function that reads React state takes the view of its render.
  \<^item> refs (\<open>useRef\<close>): obstacles, particles, speed, timers, the animation-frame handle.
    They are shared mutable cells, read and written in place.
  \<^item> the browser: \<open>localStorage\<close>, pending timers, the pending animation frame, and the
    values of \<open>Math.random\<close>, \<open>performance.now\<close>, the canvas and the window, which are
    inputs of each event (\<open>env\<close>).

  What the embedding takes from React and the browser, and not from the source:
  \<^item> a state setter called with a value or with a pure updater takes effect in call
    order, so the state is written at the call;
  \<^item> the one updater with side effects (line 186) is run by React either at the call or
    at the next render, depending on whether the component has work pending (see
    \<open>dispatch\<close> and \<open>setAuraCountUpdater\<close>);
  \<^item> React renders after each event that scheduled an update, before the next event;
    it is React as built for production, where no render and no updater is run a second
    time for checking;
  \<^item> a timer fires when its delay has passed on a clock counted in milliseconds;
  \<^item> numbers are JavaScript doubles in the source. Scores and lanes are integers there
    and are \<open>int\<close> here; positions, speeds and random draws are \<open>rat\<close>, exact arithmetic
    in place of IEEE rounding. No statement below depends on a rounded value.
\<close>

subsection \<open>Constants (lines 16-23)\<close>

definition LANES :: int where "LANES = 3"
definition LANE_WIDTH :: rat where "LANE_WIDTH = 100"
definition PLAYER_SIZE :: rat where "PLAYER_SIZE = 40"
definition OBSTACLE_SIZE :: rat where "OBSTACLE_SIZE = 50"
definition INITIAL_SPEED :: rat where "INITIAL_SPEED = 5"
definition SPEED_INCREMENT :: rat where "SPEED_INCREMENT = 1 / 1000"
definition FLOW_STATE_DURATION :: nat where "FLOW_STATE_DURATION = 10000"

subsection \<open>Data (lines 25-45)\<close>

datatype GameState = MENU | PLAYING | GAME_OVER | SHOP

datatype ObstacleType = BLOCK | AURA

record Obstacle =
  o_id :: rat
  o_lane :: int
  o_y :: rat
  o_type :: ObstacleType

record Particle =
  p_id :: rat
  p_x :: rat
  p_y :: rat
  p_vx :: rat
  p_vy :: rat
  p_life :: rat
  p_maxLife :: rat
  p_color :: string
  p_size :: rat
  p_glow :: bool

text \<open>The \<open>Partial<Particle>\<close> argument of \<open>createParticles\<close>, with the fields its callers pass.\<close>

record ParticleOptions =
  opt_vx :: "rat option"
  opt_vy :: "rat option"
  opt_size :: "rat option"
  opt_glow :: "bool option"
  opt_maxLife :: "rat option"

definition no_options :: ParticleOptions where
  "no_options = \<lparr>opt_vx = None, opt_vy = None, opt_size = None, opt_glow = None, opt_maxLife = None\<rparr>"

text \<open>
  The high score is whatever \<open>parseInt\<close> returned at startup, so it can be \<open>NaN\<close> or an
  infinity; every comparison with \<open>NaN\<close> is false. \<open>js_gt s h\<close> is \<open>s > h\<close> for a finite
  \<open>s\<close>. (The negative zero is \<open>Num 0\<close>: the program only compares the high score, and
  the two zeros compare alike.)
\<close>

datatype jsnum = NaN | Num int | PosInfinity | NegInfinity

fun js_gt :: "int \<Rightarrow> jsnum \<Rightarrow> bool" where
  "js_gt s NaN = False"
| "js_gt s (Num h) = (h < s)"
| "js_gt s PosInfinity = False"
| "js_gt s NegInfinity = True"

text \<open>What the closures of one render see of the React state.\<close>

record view =
  v_gameState :: GameState
  v_score :: int
  v_highScore :: jsnum
  v_isFlowState :: bool
  v_playerLane :: int
  v_isShaking :: bool

text \<open>
  An update in the queue of the \<open>auraCount\<close> state. \<open>setAuraCount(0)\<close> is \<open>SetAura 0\<close>. The
  updater of line 186 is \<open>IncAura b\<close> while it waits to be run at the next render, where
  \<open>b\<close> is the \<open>isFlowState\<close> of the closure that issued it (line 188 reads it from
  there); it is \<open>EagerAura n\<close> when React has run it at the call already and keeps its
  result \<open>n\<close> with the update. React applies the queue in the order of the calls.
\<close>

datatype AuraUpdate = SetAura int | IncAura bool | EagerAura int

text \<open>The eight state variables, as one render leaves them.\<close>

record hooks =
  h_gameState :: GameState
  h_score :: int
  h_highScore :: jsnum
  h_auraCount :: int
  h_isFlowState :: bool
  h_playerLane :: int
  h_gameOverText :: "string option"
  h_isShaking :: bool

text \<open>What an event reads from the browser.\<close>

record env =
  e_time :: rat
  e_now :: rat
  e_dateNow :: rat
  e_canvas :: "(rat \<times> rat) option"
  e_ctx :: bool
  e_innerWidth :: rat
  e_innerHeight :: rat
  e_random :: "nat \<Rightarrow> rat"
  e_cos :: "rat \<Rightarrow> rat"
  e_sin :: "rat \<Rightarrow> rat"
  e_pi :: rat

text \<open>
  \<open>e_time\<close> is the timestamp passed to the frame callback, \<open>e_now\<close> is \<open>performance.now()\<close>,
  \<open>e_canvas\<close> is the width and height of \<open>canvasRef.current\<close> (\<open>None\<close> when the ref is
  null), \<open>e_ctx\<close> says whether \<open>getContext('2d')\<close> returns a context, \<open>e_random k\<close> is the
  result of the \<open>k\<close>-th call of \<open>Math.random()\<close> during the event, and \<open>e_cos\<close>, \<open>e_sin\<close>,
  \<open>e_pi\<close> are \<open>Math.cos\<close>, \<open>Math.sin\<close>, \<open>Math.PI\<close>.

  The two timer refs each hold the only timer of their kind that can be pending: every
  \<open>setTimeout\<close> result is stored in its ref, and the ref is cleared with \<open>clearTimeout\<close>
  before it is overwritten. So a timer is the time at which it is due, \<open>None\<close> when nothing
  is pending. In the same way \<open>requestRef\<close> holds the only animation frame that can be
  pending; \<open>pendingFrame\<close> is the view of the \<open>update\<close> closure it will call.
\<close>

record game =
  gameState :: GameState
  score :: int
  highScore :: jsnum
  auraCount :: int
  isFlowState :: bool
  playerLane :: int
  gameOverText :: "string option"
  isShaking :: bool
  auraQueue :: "AuraUpdate list"
  lanes :: bool
  scheduled :: bool
  lastRender :: hooks
  effectDep :: GameState
  obstacles :: "Obstacle list"
  particles :: "Particle list"
  speed :: rat
  lastTime :: rat
  flowStateTimer :: "nat option"
  shakeTimer :: "nat option"
  pendingFrame :: "view option"
  clock :: nat
  drawn :: nat
  storage :: "string option"
  setItemLog :: "string list"

text \<open>
  \<open>lanes\<close> says that React has work marked on the component (on one of its two fibers),
  \<open>scheduled\<close> that an update of the current event has asked for a render, \<open>lastRender\<close>
  is the state the last render produced.
  \<open>effectDep\<close> is the \<open>gameState\<close> for which the effect of lines 360-369 ran last,
  \<open>clock\<close> the time in milliseconds, \<open>drawn\<close> the number of \<open>Math.random()\<close> calls made so
  far in the current event, \<open>storage\<close> the entry \<open>vibe-surfer-highscore\<close> of
  \<open>localStorage\<close> and \<open>setItemLog\<close> the values written to it, oldest first.
\<close>

definition hooksOf :: "game \<Rightarrow> hooks" where
  "hooksOf g = \<lparr>h_gameState = gameState g, h_score = score g, h_highScore = highScore g,
     h_auraCount = auraCount g, h_isFlowState = isFlowState g, h_playerLane = playerLane g,
     h_gameOverText = gameOverText g, h_isShaking = isShaking g\<rparr>"

definition render :: "game \<Rightarrow> view" where
  "render g = \<lparr>v_gameState = gameState g, v_score = score g, v_highScore = highScore g,
     v_isFlowState = isFlowState g, v_playerLane = playerLane g, v_isShaking = isShaking g\<rparr>"

subsection \<open>Startup: the stored high score (lines 50-53)\<close>

text \<open>
  The stored entry is a string of 8-bit characters here. The white space of ECMAScript
  in that range: tab, line feed, vertical tab, form feed, carriage return, space and the
  no-break space. (The other white space characters of ECMAScript lie outside the range,
  so an entry that contains one is not an input of the embedding.)
\<close>

definition isWhiteSpace :: "char \<Rightarrow> bool" where
  "isWhiteSpace c = (c \<in> {CHR '' '', CHR 0x09, CHR 0x0A, CHR 0x0B, CHR 0x0C, CHR 0x0D, CHR 0xA0})"

definition digitValue :: "char \<Rightarrow> nat option" where
  "digitValue c =
     (let n = (of_char c :: nat) in
      if 48 \<le> n \<and> n \<le> 57 then Some (n - 48)
      else if 97 \<le> n \<and> n \<le> 122 then Some (n - 87)
      else if 65 \<le> n \<and> n \<le> 90 then Some (n - 55)
      else None)"

definition isRadixDigit :: "nat \<Rightarrow> char \<Rightarrow> bool" where
  "isRadixDigit r c = (case digitValue c of None \<Rightarrow> False | Some d \<Rightarrow> d < r)"

fun digitsValue :: "nat \<Rightarrow> nat \<Rightarrow> string \<Rightarrow> nat" where
  "digitsValue r acc [] = acc"
| "digitsValue r acc (c # cs) =
     digitsValue r (acc * r + (case digitValue c of None \<Rightarrow> 0 | Some d \<Rightarrow> d)) cs"

text \<open>
  The double nearest to an integer, ties to even: an integer below \<open>2 ^ 53\<close> in size is
  a double; a larger one keeps its 53 leading bits, rounded; from \<open>2 ^ 1024\<close> on the
  result is an infinity.
\<close>

fun bitLength :: "nat \<Rightarrow> nat" where
  "bitLength n = (if n = 0 then 0 else Suc (bitLength (n div 2)))"

declare bitLength.simps [simp del]

definition roundToDouble :: "nat \<Rightarrow> nat" where
  "roundToDouble a =
     (if a < 2 ^ 53 then a
      else
        (let k = bitLength a - 53;
             q = a div 2 ^ k;
             r = a mod 2 ^ k;
             half = 2 ^ (k - 1)
         in (if half < r \<or> (r = half \<and> odd q) then q + 1 else q) * 2 ^ k))"

definition toDouble :: "bool \<Rightarrow> nat \<Rightarrow> jsnum" where
  "toDouble neg a =
     (let m = roundToDouble a
      in if 2 ^ 1024 \<le> m then (if neg then NegInfinity else PosInfinity)
         else Num ((if neg then - 1 else 1) * int m))"

text \<open>
  \<open>parseInt(s)\<close> with no radix, after ECMAScript: skip leading white space, read a sign,
  switch to radix 16 after \<open>0x\<close> or \<open>0X\<close>, take the longest run of digits; no digit gives
  \<open>NaN\<close>. The result is the double nearest to the integer the digits spell. (ECMAScript
  lets an implementation read the decimal digits after the twentieth as zeros; the
  digits are read exactly here.)
\<close>

definition parseInt :: "string \<Rightarrow> jsnum" where
  "parseInt s =
     (let t = dropWhile isWhiteSpace s;
          neg = (t \<noteq> [] \<and> hd t = CHR ''-'');
          u = (if t \<noteq> [] \<and> (hd t = CHR ''-'' \<or> hd t = CHR ''+'') then tl t else t);
          hex = (take 2 u = ''0x'' \<or> take 2 u = ''0X'');
          r = (if hex then 16 else 10);
          w = (if hex then drop 2 u else u);
          ds = takeWhile (isRadixDigit r) w
      in if ds = [] then NaN else toDouble neg (digitsValue r 0 ds))"

text \<open>
  Line 52: \<open>saved ? parseInt(saved) : 0\<close>. \<open>getItem\<close> gives \<open>null\<close> for an absent entry;
  \<open>null\<close> and the empty string are the falsy values of \<open>saved\<close>.
\<close>

definition initialHighScore :: "string option \<Rightarrow> jsnum" where
  "initialHighScore saved =
     (case saved of None \<Rightarrow> Num 0 | Some s \<Rightarrow> if s = [] then Num 0 else parseInt s)"

definition init :: "string option \<Rightarrow> game" where
  "init saved = \<lparr>gameState = MENU, score = 0, highScore = initialHighScore saved,
     auraCount = 0, isFlowState = False, playerLane = 1, gameOverText = Some [],
     isShaking = False, auraQueue = [], lanes = False, scheduled = False,
     lastRender = \<lparr>h_gameState = MENU, h_score = 0, h_highScore = initialHighScore saved,
       h_auraCount = 0, h_isFlowState = False, h_playerLane = 1, h_gameOverText = Some [],
       h_isShaking = False\<rparr>,
     effectDep = MENU, obstacles = [], particles = [],
     speed = INITIAL_SPEED, lastTime = 0, flowStateTimer = None, shakeTimer = None,
     pendingFrame = None, clock = 0, drawn = 0, storage = saved, setItemLog = []\<rparr>"

subsection \<open>Browser primitives\<close>

text \<open>\<open>Math.random()\<close>: the next value of the event's sequence.\<close>

definition mathRandom :: "env \<Rightarrow> game \<Rightarrow> rat \<times> game" where
  "mathRandom e g = (e_random e (drawn g), g\<lparr>drawn := drawn g + 1\<rparr>)"

text \<open>\<open>Number.prototype.toString\<close> on an integer: its decimal digits.\<close>

fun natToString :: "nat \<Rightarrow> string" where
  "natToString n =
     (if n < 10 then [char_of (48 + n)]
      else natToString (n div 10) @ [char_of (48 + n mod 10)])"

declare natToString.simps [simp del]

definition toString :: "int \<Rightarrow> string" where
  "toString i = (if i < 0 then CHR ''-'' # natToString (nat (- i)) else natToString (nat i))"

definition setItem :: "string \<Rightarrow> game \<Rightarrow> game" where
  "setItem s g = g\<lparr>storage := Some s, setItemLog := setItemLog g @ [s]\<rparr>"

definition cancelAnimationFrame :: "game \<Rightarrow> game" where
  "cancelAnimationFrame g = g\<lparr>pendingFrame := None\<rparr>"

definition requestAnimationFrame :: "view \<Rightarrow> game \<Rightarrow> game" where
  "requestAnimationFrame v g = g\<lparr>pendingFrame := Some v\<rparr>"

subsection \<open>Obstacles and particles (lines 81-111)\<close>

definition spawnObstacle :: "env \<Rightarrow> game \<Rightarrow> game" where
  "spawnObstacle e g =
     (let (r1, g1) = mathRandom e g;
          lane = \<lfloor>r1 * of_int LANES\<rfloor>;
          (r2, g2) = mathRandom e g1;
          isAura = (r2 > 8 / 10);
          (r3, g3) = mathRandom e g2;
          newObstacle = \<lparr>o_id = e_dateNow e + r3, o_lane = lane, o_y = - 100,
                         o_type = (if isAura then AURA else BLOCK)\<rparr>
      in g3\<lparr>obstacles := obstacles g3 @ [newObstacle]\<rparr>)"

text \<open>
  One turn of the loop of \<open>createParticles\<close>. The object literal calls \<open>Math.random()\<close>
  five times in this order: angle, speed, id, maxLife, size; the spread \<open>...options\<close>
  then overrides the fields the caller gave.
\<close>

definition newParticle :: "env \<Rightarrow> rat \<Rightarrow> rat \<Rightarrow> string \<Rightarrow> ParticleOptions \<Rightarrow> nat \<Rightarrow> Particle" where
  "newParticle e x y color options k =
     (let angle = e_random e k * e_pi e * 2;
          spd = e_random e (k + 1) * 8 + 2
      in \<lparr>p_id = e_random e (k + 2), p_x = x, p_y = y,
          p_vx = (case opt_vx options of Some v \<Rightarrow> v | None \<Rightarrow> e_cos e angle * spd),
          p_vy = (case opt_vy options of Some v \<Rightarrow> v | None \<Rightarrow> e_sin e angle * spd),
          p_life = 1,
          p_maxLife = (case opt_maxLife options of Some v \<Rightarrow> v
                       | None \<Rightarrow> e_random e (k + 3) * (1 / 2) + 1 / 2),
          p_color = color,
          p_size = (case opt_size options of Some v \<Rightarrow> v | None \<Rightarrow> e_random e (k + 4) * 4 + 2),
          p_glow = (case opt_glow options of Some b \<Rightarrow> b | None \<Rightarrow> True)\<rparr>)"

fun createParticles :: "env \<Rightarrow> rat \<Rightarrow> rat \<Rightarrow> string \<Rightarrow> nat \<Rightarrow> ParticleOptions \<Rightarrow> game \<Rightarrow> game" where
  "createParticles e x y color 0 options g = g"
| "createParticles e x y color (Suc n) options g =
     createParticles e x y color n options
       (g\<lparr>particles := particles g @ [newParticle e x y color options (drawn g)],
          drawn := drawn g + 5\<rparr>)"

subsection \<open>React: the state setters\<close>

text \<open>
  A call of a state setter goes one of three ways (React's \<open>dispatchSetState\<close>).
  \<^item> The call is made from an event handler, a frame or a timer (\<open>InEvent\<close>), and React
    has no work marked on the component (\<open>lanes\<close> is false): React computes the new
    state at once, from the state of the last render. If it is the state of the last
    render, nothing more happens: no render is scheduled. Otherwise the update is queued
    together with the state computed, the work is marked and a render is scheduled.
  \<^item> The call is made \<open>InEvent\<close> and work is marked: the update is queued as it is,
    and a render is scheduled. An updater function is then run when React renders.
  \<^item> The call is made while React renders (\<open>InRender\<close>), by an updater that React
    runs from the queue: the update is queued for the render under way; nothing is
    marked or scheduled.

  \<open>dispatch\<close> does the marking; its argument \<open>same\<close> says that the new state is the
  current one. While no work is marked, no update that changes the state is waiting, and
  the state variables hold what the last render produced; so this is React's comparison
  with the last rendered state.

  Every setter but \<open>setAuraCount\<close> is only ever called with a value or with an updater
  that has no side effect. For those the state after the render is the state obtained by
  applying the updates in call order, and the embedding writes the state at the call.
  Closures do not see the difference: they read the view of their render.
\<close>

datatype Phase = InEvent | InRender

definition dispatch :: "Phase \<Rightarrow> bool \<Rightarrow> game \<Rightarrow> game" where
  "dispatch ph same g =
     (if ph = InRender then g
      else if \<not> lanes g \<and> same then g
      else g\<lparr>lanes := True, scheduled := True\<rparr>)"

definition setGameState :: "GameState \<Rightarrow> game \<Rightarrow> game" where
  "setGameState s g = (dispatch InEvent (s = gameState g) g)\<lparr>gameState := s\<rparr>"

definition setScore :: "(int \<Rightarrow> int) \<Rightarrow> game \<Rightarrow> game" where
  "setScore f g = (dispatch InEvent (f (score g) = score g) g)\<lparr>score := f (score g)\<rparr>"

definition setHighScore :: "jsnum \<Rightarrow> game \<Rightarrow> game" where
  "setHighScore h g = (dispatch InEvent (h = highScore g) g)\<lparr>highScore := h\<rparr>"

definition setPlayerLane :: "(int \<Rightarrow> int) \<Rightarrow> game \<Rightarrow> game" where
  "setPlayerLane f g =
     (dispatch InEvent (f (playerLane g) = playerLane g) g)\<lparr>playerLane := f (playerLane g)\<rparr>"

definition setGameOverText :: "string option \<Rightarrow> game \<Rightarrow> game" where
  "setGameOverText t g = (dispatch InEvent (t = gameOverText g) g)\<lparr>gameOverText := t\<rparr>"

text \<open>
  The three setters that \<open>activateFlowState\<close> calls can be called while React renders,
  so they take the phase.
\<close>

definition setIsFlowState :: "Phase \<Rightarrow> bool \<Rightarrow> game \<Rightarrow> game" where
  "setIsFlowState ph b g = (dispatch ph (b = isFlowState g) g)\<lparr>isFlowState := b\<rparr>"

definition setIsShaking :: "Phase \<Rightarrow> bool \<Rightarrow> game \<Rightarrow> game" where
  "setIsShaking ph b g = (dispatch ph (b = isShaking g) g)\<lparr>isShaking := b\<rparr>"

text \<open>
  \<open>setAuraCount\<close> with a value. The aura count is the one state variable that is not
  written at the call: its updates wait in \<open>auraQueue\<close> until React renders, so
  \<open>auraCount\<close> is the count of the last render.
\<close>

definition setAuraCount :: "Phase \<Rightarrow> int \<Rightarrow> game \<Rightarrow> game" where
  "setAuraCount ph n g =
     (if ph = InEvent \<and> \<not> lanes g \<and> n = auraCount g then g
      else (dispatch ph False g)\<lparr>auraQueue := auraQueue g @ [SetAura n]\<rparr>)"

subsection \<open>Shake, start, end, power mode (lines 113-154)\<close>

definition triggerShake :: "Phase \<Rightarrow> nat \<Rightarrow> game \<Rightarrow> game" where
  "triggerShake ph duration g =
     (let g1 = setIsShaking ph True g;
          g2 = (if shakeTimer g1 \<noteq> None then g1\<lparr>shakeTimer := None\<rparr> else g1)
      in g2\<lparr>shakeTimer := Some (clock g2 + duration)\<rparr>)"

definition startGame :: "env \<Rightarrow> game \<Rightarrow> game" where
  "startGame e g =
     (let g1 = setGameState PLAYING g;
          g2 = setScore (\<lambda>s. 0) g1;
          g3 = setAuraCount InEvent 0 g2;
          g4 = setIsFlowState InEvent False g3;
          g5 = setPlayerLane (\<lambda>l. 1) g4
      in g5\<lparr>speed := INITIAL_SPEED, obstacles := [], particles := [], lastTime := e_now e\<rparr>)"

definition gameOverMessages :: "string list" where
  "gameOverMessages =
     [''Aura points deducted.'', ''Bro forgot how to swipe.'',
      ''Touch grass (or just try again).'', ''L + Ratio + Crashed.'',
      ''Main character energy depleted.'', ''Skill issue detected.'', ''Vibe check failed.'']"

text \<open>An array read: \<open>undefined\<close> (here \<open>None\<close>) outside the array.\<close>

definition arrayGet :: "'a list \<Rightarrow> int \<Rightarrow> 'a option" where
  "arrayGet xs i = (if 0 \<le> i \<and> i < int (length xs) then Some (xs ! nat i) else None)"

text \<open>
  \<open>endGame\<close> compares the \<open>score\<close> and the \<open>highScore\<close> of its own render (line 134): both
  come from the view.
\<close>

definition endGame :: "view \<Rightarrow> env \<Rightarrow> game \<Rightarrow> game" where
  "endGame v e g =
     (let g1 = setGameState GAME_OVER g;
          (r, g2) = mathRandom e g1;
          g3 = setGameOverText (arrayGet gameOverMessages \<lfloor>r * of_nat (length gameOverMessages)\<rfloor>) g2;
          g4 = (if js_gt (v_score v) (v_highScore v)
                then setItem (toString (v_score v)) (setHighScore (Num (v_score v)) g3)
                else g3)
      in if flowStateTimer g4 \<noteq> None then g4\<lparr>flowStateTimer := None\<rparr> else g4)"

text \<open>
  \<open>activateFlowState\<close> is called from the updater of line 186 only, so either from the
  frame (when React runs the updater at the call) or while React renders.
\<close>

definition activateFlowState :: "Phase \<Rightarrow> env \<Rightarrow> game \<Rightarrow> game" where
  "activateFlowState ph e g =
     (let g1 = setIsFlowState ph True g;
          g2 = setAuraCount ph 0 g1;
          g3 = triggerShake ph 500 g2;
          g4 = createParticles e (e_innerWidth e / 2) (e_innerHeight e / 2) ''#00ffff'' 100
                 (no_options\<lparr>opt_size := Some 6, opt_glow := Some True\<rparr>) g3;
          g5 = createParticles e (e_innerWidth e / 2) (e_innerHeight e / 2) ''#ff00ff'' 50
                 (no_options\<lparr>opt_size := Some 4, opt_glow := Some True\<rparr>) g4;
          g6 = (if flowStateTimer g5 \<noteq> None then g5\<lparr>flowStateTimer := None\<rparr> else g5)
      in g6\<lparr>flowStateTimer := Some (clock g6 + FLOW_STATE_DURATION)\<rparr>)"

text \<open>
  The call of lines 186-192: \<open>setAuraCount\<close> with an updater that calls
  \<open>activateFlowState\<close>. It reads \<open>isFlowState\<close> from the view of its closure.

  When work is marked on the component, the updater is queued (\<open>IncAura\<close>) and runs when
  React renders. When none is marked, React runs the updater at the call, on the count of
  the last render; a call of \<open>activateFlowState\<close> happens there and then, and its
  \<open>setAuraCount(0)\<close> enters the queue first; then React queues the update with the
  result of the updater (\<open>EagerAura\<close>).
\<close>

definition setAuraCountUpdater :: "view \<Rightarrow> env \<Rightarrow> game \<Rightarrow> game" where
  "setAuraCountUpdater v e g =
     (if lanes g then g\<lparr>auraQueue := auraQueue g @ [IncAura (v_isFlowState v)], scheduled := True\<rparr>
      else
        (let next = auraCount g + 1;
             g1 = (if next \<ge> 10 \<and> \<not> v_isFlowState v then activateFlowState InEvent e g else g)
         in g1\<lparr>auraQueue := auraQueue g1 @ [EagerAura next], lanes := True, scheduled := True\<rparr>))"

subsection \<open>The frame callback (lines 156-248)\<close>

definition laneCenter :: "rat \<times> rat \<Rightarrow> int \<Rightarrow> rat" where
  "laneCenter cv lane = fst cv / 2 - LANE_WIDTH * (3 / 2) + of_int lane * LANE_WIDTH + LANE_WIDTH / 2"

text \<open>Lines 177-184: the test against the \<open>playerLane\<close> of the closure's render.\<close>

definition collides :: "view \<Rightarrow> rat \<times> rat \<Rightarrow> Obstacle \<Rightarrow> bool" where
  "collides v cv obs =
     (let laneX = laneCenter cv (o_lane obs);
          playerX = laneCenter cv (v_playerLane v);
          playerY = snd cv - 100;
          dx = \<bar>laneX - playerX\<bar>;
          dy = \<bar>o_y obs - playerY\<bar>
      in dx < (PLAYER_SIZE + OBSTACLE_SIZE) / 2 \<and> dy < (PLAYER_SIZE + OBSTACLE_SIZE) / 2)"

text \<open>Line 172, lines 175-184 with the null test of the canvas, and line 212.\<close>

definition advance :: "rat \<Rightarrow> Obstacle \<Rightarrow> Obstacle" where
  "advance sp obs = obs\<lparr>o_y := o_y obs + sp\<rparr>"

definition hits :: "view \<Rightarrow> env \<Rightarrow> Obstacle \<Rightarrow> bool" where
  "hits v e obs = (case e_canvas e of None \<Rightarrow> False | Some cv \<Rightarrow> collides v cv obs)"

definition onScreen :: "env \<Rightarrow> Obstacle \<Rightarrow> bool" where
  "onScreen e obs = (o_y obs < e_innerHeight e + 100)"

text \<open>
  The callback of the \<open>filter\<close> of line 171: it moves the obstacle, and returns the moved
  obstacle, whether it stays in the list, and the state after its side effects. The
  branches read \<open>isFlowState\<close> from the view of the closure.
\<close>

definition obstacleCallback :: "view \<Rightarrow> env \<Rightarrow> Obstacle \<Rightarrow> game \<Rightarrow> (Obstacle \<times> bool) \<times> game" where
  "obstacleCallback v e obs0 g =
     (let obs = advance (speed g) obs0
      in case e_canvas e of
           None \<Rightarrow> ((obs, onScreen e obs), g)
         | Some cv \<Rightarrow>
             if collides v cv obs then
               (if o_type obs = AURA then
                  (let g1 = setAuraCountUpdater v e g;
                       g2 = createParticles e (laneCenter cv (o_lane obs)) (o_y obs) ''#00ffff'' 20
                              (no_options\<lparr>opt_size := Some 5, opt_glow := Some True\<rparr>) g1;
                       g3 = createParticles e (laneCenter cv (o_lane obs)) (o_y obs) ''#ffffff'' 10
                              (no_options\<lparr>opt_size := Some 2, opt_glow := Some False\<rparr>) g2
                   in ((obs, False), triggerShake InEvent 100 g3))
                else if v_isFlowState v then
                  (let g1 = createParticles e (laneCenter cv (o_lane obs)) (o_y obs) ''#ff00ff'' 30
                              (no_options\<lparr>opt_size := Some 6, opt_glow := Some True\<rparr>) g;
                       g2 = setScore (\<lambda>s. s + 50) g1
                   in ((obs, False), triggerShake InEvent 150 g2))
                else ((obs, False), endGame v e g))
             else ((obs, onScreen e obs), g))"

fun filterObstacles :: "view \<Rightarrow> env \<Rightarrow> Obstacle list \<Rightarrow> game \<Rightarrow> Obstacle list \<times> game" where
  "filterObstacles v e [] g = ([], g)"
| "filterObstacles v e (obs # rest) g =
     (let ((obs', keep), g1) = obstacleCallback v e obs g;
          (kept, g2) = filterObstacles v e rest g1
      in (if keep then obs' # kept else kept, g2))"

text \<open>
  Lines 216-223. A \<open>maxLife\<close> of 0 makes the decay infinite in the source, so that particle
  is dropped.
\<close>

definition moveParticle :: "Particle \<Rightarrow> Particle" where
  "moveParticle p =
     p\<lparr>p_x := p_x p + p_vx p, p_y := p_y p + p_vy p,
       p_vx := p_vx p * (98 / 100), p_vy := p_vy p * (98 / 100),
       p_life := p_life p - (2 / 100) / p_maxLife p\<rparr>"

definition updateParticles :: "Particle list \<Rightarrow> Particle list" where
  "updateParticles ps =
     map moveParticle (filter (\<lambda>p. p_maxLife p \<noteq> 0 \<and> 0 < p_life (moveParticle p)) ps)"

definition playerTrail :: "view \<Rightarrow> env \<Rightarrow> game \<Rightarrow> game" where
  "playerTrail v e g =
     (case e_canvas e of
        None \<Rightarrow> g
      | Some cv \<Rightarrow>
          (let playerX = laneCenter cv (v_playerLane v);
               playerY = snd cv - 100;
               (r, g1) = mathRandom e g
           in if r < (if v_isFlowState v then 8 / 10 else 3 / 10) then
                (let (r2, g2) = mathRandom e g1
                 in createParticles e playerX (playerY + 20)
                      (if v_isFlowState v then ''#ff00ff'' else ''#00ffff'') 1
                      (no_options\<lparr>opt_vx := Some ((r2 - 1 / 2) * 2),
                         opt_vy := Some (speed g2 * (1 / 2)),
                         opt_size := Some (if v_isFlowState v then 8 else 4),
                         opt_glow := Some (v_isFlowState v),
                         opt_maxLife := Some (3 / 10)\<rparr>) g2)
              else g1))"

text \<open>
  \<open>draw\<close> (lines 250-346) paints the canvas; of the state it changes nothing, but it calls
  \<open>Math.random()\<close> twice when the \<open>isShaking\<close> of its render is set.
\<close>

definition draw :: "view \<Rightarrow> env \<Rightarrow> game \<Rightarrow> game" where
  "draw v e g =
     (if e_canvas e \<noteq> None \<and> e_ctx e \<and> v_isShaking v then g\<lparr>drawn := drawn g + 2\<rparr> else g)"

text \<open>
  \<open>update\<close>, in three parts: lines 159-168 (time, speed, spawn), the \<open>filter\<close> of lines
  171-213, and lines 215-247. The last line hands the same closure, with the same view, to
  \<open>requestAnimationFrame\<close>.
\<close>

definition beforeFilter :: "env \<Rightarrow> game \<Rightarrow> game" where
  "beforeFilter e g =
     (let g1 = g\<lparr>lastTime := e_time e\<rparr>;
          g2 = g1\<lparr>speed := speed g1 + SPEED_INCREMENT\<rparr>;
          (r, g3) = mathRandom e g2
      in if r < (2 / 100) * (speed g3 / 5) then spawnObstacle e g3 else g3)"

definition afterFilter :: "view \<Rightarrow> env \<Rightarrow> game \<Rightarrow> game" where
  "afterFilter v e g =
     (let g1 = g\<lparr>particles := updateParticles (particles g)\<rparr>;
          g2 = playerTrail v e g1;
          g3 = setScore (\<lambda>s. s + 1) g2;
          g4 = draw v e g3
      in requestAnimationFrame v g4)"

definition update :: "view \<Rightarrow> env \<Rightarrow> game \<Rightarrow> game" where
  "update v e g =
     (if v_gameState v \<noteq> PLAYING then g
      else
        (let g1 = beforeFilter e g;
             (kept, g2) = filterObstacles v e (obstacles g1) g1
         in afterFilter v e (g2\<lparr>obstacles := kept\<rparr>)))"

subsection \<open>Input handlers (lines 372-386)\<close>

definition handleKeyDown :: "view \<Rightarrow> string \<Rightarrow> game \<Rightarrow> game" where
  "handleKeyDown v key g =
     (if v_gameState v \<noteq> PLAYING then g
      else
        (let g1 = (if key = ''ArrowLeft'' then setPlayerLane (\<lambda>l. max 0 (l - 1)) g else g)
         in if key = ''ArrowRight''
            then setPlayerLane (\<lambda>l. min (LANES - 1) (l + 1)) g1 else g1))"

definition handleTouchStart :: "view \<Rightarrow> env \<Rightarrow> rat \<Rightarrow> game \<Rightarrow> game" where
  "handleTouchStart v e touchX g =
     (if v_gameState v \<noteq> PLAYING then g
      else if touchX < e_innerWidth e / 2
           then setPlayerLane (\<lambda>l. max 0 (l - 1)) g
           else setPlayerLane (\<lambda>l. min (LANES - 1) (l + 1)) g)"

subsection \<open>React: rendering and the effect of lines 360-369\<close>

text \<open>
  When React renders, it applies the queue of the aura count in order. A \<open>SetAura\<close> and
  an \<open>EagerAura\<close> carry their state: the state computed at the call replaces the
  count, whatever was queued before it. The updater of an \<open>IncAura\<close> is run now, on the
  count the queue has produced so far, and \<open>activateFlowState\<close> with it; the
  \<open>setAuraCount(0)\<close> that \<open>activateFlowState\<close> issues then goes to the end of the
  queue, behind every update that was already waiting.
\<close>

definition applyAuraUpdate :: "env \<Rightarrow> AuraUpdate \<Rightarrow> game \<Rightarrow> game" where
  "applyAuraUpdate e u g =
     (case u of
        SetAura n \<Rightarrow> g\<lparr>auraCount := n\<rparr>
      | EagerAura n \<Rightarrow> g\<lparr>auraCount := n\<rparr>
      | IncAura flow \<Rightarrow>
          (let next = auraCount g + 1;
               g1 = (if next \<ge> 10 \<and> \<not> flow then activateFlowState InRender e g else g)
           in g1\<lparr>auraCount := next\<rparr>))"

fun drainAura :: "env \<Rightarrow> AuraUpdate list \<Rightarrow> game \<Rightarrow> game" where
  "drainAura e [] g = g"
| "drainAura e (u # us) g = drainAura e us (applyAuraUpdate e u g)"

text \<open>
  Two rounds empty the queue: the updates issued while the first round runs are all
  \<open>SetAura\<close>, which issue none.
\<close>

definition flushAura :: "env \<Rightarrow> game \<Rightarrow> game" where
  "flushAura e g =
     (let g1 = drainAura e (auraQueue g) (g\<lparr>auraQueue := []\<rparr>)
      in drainAura e (auraQueue g1) (g1\<lparr>auraQueue := []\<rparr>))"

text \<open>
  The effect depends on \<open>[gameState]\<close> only: it runs after a render in which \<open>gameState\<close>
  differs from the render before. Its cleanup cancels the pending frame; its body requests
  a frame for the \<open>update\<close> of this render when the state is \<open>PLAYING\<close>, and cancels
  otherwise.
\<close>

definition runEffect :: "game \<Rightarrow> game" where
  "runEffect g =
     (if gameState g = effectDep g then g
      else
        (let g1 = cancelAnimationFrame g;
             g2 = (if gameState g1 = PLAYING then requestAnimationFrame (render g1) g1
                   else cancelAnimationFrame g1)
         in g2\<lparr>effectDep := gameState g2\<rparr>))"

text \<open>
  What follows an event. With no render scheduled nothing happens. Otherwise React
  renders and applies the queue. If every state variable comes out as the last render
  left it, React drops the render: no effect runs, and no work stays marked on the
  component. Otherwise the render is committed and the effect is looked at; the fiber
  that was current until now keeps its marks, so work stays marked on the component
  until a render is dropped.
\<close>

definition commit :: "env \<Rightarrow> game \<Rightarrow> game" where
  "commit e g =
     (if \<not> scheduled g then g
      else
        (let g1 = flushAura e g
         in if hooksOf g1 = lastRender g1 then g1\<lparr>lanes := False, scheduled := False\<rparr>
            else (runEffect (g1\<lparr>lanes := True, lastRender := hooksOf g1\<rparr>))\<lparr>scheduled := False\<rparr>))"

subsection \<open>Events\<close>

text \<open>
  The callbacks of the two timers (lines 152 and 116): each runs when its delay has
  passed.
\<close>

definition fireFlowStateTimer :: "game \<Rightarrow> game" where
  "fireFlowStateTimer g =
     (case flowStateTimer g of
        None \<Rightarrow> g
      | Some t \<Rightarrow> if t \<le> clock g then setIsFlowState InEvent False (g\<lparr>flowStateTimer := None\<rparr>) else g)"

definition fireShakeTimer :: "game \<Rightarrow> game" where
  "fireShakeTimer g =
     (case shakeTimer g of
        None \<Rightarrow> g
      | Some t \<Rightarrow> if t \<le> clock g then setIsShaking InEvent False (g\<lparr>shakeTimer := None\<rparr>) else g)"

text \<open>
  Time passes: the clock advances, and the timers that are due fire, the one due earlier
  first, each as an event of its own. (When both are due at the same time, the expiry of
  power mode was armed first, its delay being the longer one, and it fires first.)
\<close>

definition elapse :: "env \<Rightarrow> nat \<Rightarrow> game \<Rightarrow> game" where
  "elapse e d g =
     (let g1 = g\<lparr>clock := clock g + d\<rparr>
      in if (case shakeTimer g1 of
               None \<Rightarrow> False
             | Some s \<Rightarrow> (case flowStateTimer g1 of None \<Rightarrow> False | Some f \<Rightarrow> s < f))
         then fireFlowStateTimer (commit e (fireShakeTimer g1))
         else fireShakeTimer (commit e (fireFlowStateTimer g1)))"

text \<open>
  \<open>Start\<close> is a click on a button whose handler is \<open>startGame\<close> (the menu's and the
  game-over screen's), \<open>Menu\<close> the click on "Back to Menu", \<open>KeyDown\<close> and \<open>TouchStart\<close>
  the two input events, \<open>Frame\<close> the browser calling the pending animation frame,
  \<open>Elapse d\<close> the passing of \<open>d\<close> milliseconds.

  The handlers named in the JSX are those of the latest render, so they get its view
  (\<open>render g\<close>). The frame callback is not: the browser calls the closure that was handed
  to \<open>requestAnimationFrame\<close>, which is the \<open>update\<close> of the render in which the effect
  ran (line 362) or that same closure again (line 247). Renders in between create new
  \<open>update\<close> functions, but nothing registers them, since the effect runs again only when
  \<open>gameState\<close> changes. So a frame runs with the view stored in \<open>pendingFrame\<close>.
\<close>

datatype Command = Start | Menu | KeyDown string | TouchStart rat | Frame | Elapse nat

definition handle :: "env \<Rightarrow> Command \<Rightarrow> game \<Rightarrow> game" where
  "handle e c g =
     (case c of
        Start \<Rightarrow> startGame e g
      | Menu \<Rightarrow> setGameState MENU g
      | KeyDown key \<Rightarrow> handleKeyDown (render g) key g
      | TouchStart touchX \<Rightarrow> handleTouchStart (render g) e touchX g
      | Frame \<Rightarrow> (case pendingFrame g of
                   None \<Rightarrow> g
                 | Some v \<Rightarrow> update v e (g\<lparr>pendingFrame := None\<rparr>))
      | Elapse d \<Rightarrow> elapse e d g)"

text \<open>An event: the handler runs, then React renders if a render was scheduled.\<close>

definition step :: "env \<Rightarrow> Command \<Rightarrow> game \<Rightarrow> game" where
  "step e c g = commit e (handle e c (g\<lparr>drawn := 0\<rparr>))"

fun run :: "(env \<times> Command) list \<Rightarrow> game \<Rightarrow> game" where
  "run [] g = g"
| "run (ec # rest) g = run rest (step (fst ec) (snd ec) g)"

inductive reachable :: "game \<Rightarrow> bool" where
  reachable_init: "reachable (init saved)"
| reachable_step: "reachable g \<Longrightarrow> reachable (step e c g)"

section \<open>Notions used in the statements\<close>

subsection \<open>What happens in a frame\<close>

text \<open>
  The particles one call of \<open>createParticles\<close> appends: \<open>n\<close> of them, the first made from
  the random draws \<open>k\<close> to \<open>k + 4\<close>.
\<close>

fun burst :: "env \<Rightarrow> rat \<Rightarrow> rat \<Rightarrow> string \<Rightarrow> ParticleOptions \<Rightarrow> nat \<Rightarrow> nat \<Rightarrow> Particle list" where
  "burst e x y color options k 0 = []"
| "burst e x y color options k (Suc n) =
     newParticle e x y color options k # burst e x y color options (k + 5) n"

text \<open>
  The obstacles that collide with the player in the frame \<open>update v e g\<close>: those of the
  list the \<open>filter\<close> runs over that pass the test of line 184 once moved.
\<close>

definition struck :: "view \<Rightarrow> env \<Rightarrow> game \<Rightarrow> Obstacle list" where
  "struck v e g =
     filter (\<lambda>obs. hits v e (advance (speed (beforeFilter e g)) obs)) (obstacles (beforeFilter e g))"

text \<open>
  The same for the event \<open>Frame\<close> in state \<open>g\<close>: the pending frame runs with its own view;
  with no frame pending nothing collides.
\<close>

definition struckNow :: "env \<Rightarrow> game \<Rightarrow> Obstacle list" where
  "struckNow e g = (case pendingFrame g of None \<Rightarrow> [] | Some v \<Rightarrow> struck v e (g\<lparr>drawn := 0\<rparr>))"

definition auraHits :: "env \<Rightarrow> game \<Rightarrow> nat" where
  "auraHits e g = length (filter (\<lambda>obs. o_type obs = AURA) (struckNow e g))"

definition blockHit :: "env \<Rightarrow> game \<Rightarrow> bool" where
  "blockHit e g \<longleftrightarrow> (\<exists>obs \<in> set (struckNow e g). o_type obs = BLOCK)"

text \<open>
  The aura collisions of the frame take the count to 10 or beyond. (This is when a frame
  whose updaters wait for the render turns power mode on.)
\<close>

definition activates :: "env \<Rightarrow> game \<Rightarrow> bool" where
  "activates e g \<longleftrightarrow> 0 < auraHits e g \<and> 10 \<le> auraCount g + int (auraHits e g)"

text \<open>
  The obstacles of a list that stay after the \<open>filter\<close> at speed \<open>sp\<close>, moved; and the
  number of aura obstacles of a list that collide.
\<close>

definition survivors :: "view \<Rightarrow> env \<Rightarrow> rat \<Rightarrow> Obstacle list \<Rightarrow> Obstacle list" where
  "survivors v e sp obss =
     map (advance sp) (filter (\<lambda>obs. \<not> hits v e (advance sp obs) \<and> onScreen e (advance sp obs)) obss)"




subsection \<open>Sequences of events\<close>

text \<open>The two lane commands.\<close>

fun isShift :: "Command \<Rightarrow> bool" where
  "isShift (KeyDown key) = True"
| "isShift (TouchStart touchX) = True"
| "isShift c = False"

subsection \<open>The invariant of the event system\<close>

text \<open>
  What holds after every event. No update is waiting, no render is due, and the state
  variables are those of the last render. The last part is about the closure of the frame
  loop: it was created by the render that followed \<open>startGame\<close>, so it sees \<open>PLAYING\<close>,
  no power mode, score 0 and the middle lane, whatever the state is by now. The high
  score it sees is still the current one, because only the end of the run can change it.
\<close>

definition loopInv :: "game \<Rightarrow> bool" where
  "loopInv g \<longleftrightarrow>
     auraQueue g = [] \<and> \<not> scheduled g \<and> lastRender g = hooksOf g \<and> effectDep g = gameState g \<and>
     playerLane g \<in> {0, 1, 2} \<and>
     (\<forall>v. pendingFrame g = Some v \<longrightarrow>
        v_gameState v = PLAYING \<and> \<not> v_isFlowState v \<and> v_score v = 0 \<and> v_playerLane v = 1 \<and>
        v_highScore v = highScore g \<and> gameState g = PLAYING)"

subsection \<open>Concrete runs\<close>

text \<open>
  A window 300 pixels wide and 40 high. The canvas has the size of the window (lines
  349-356), so the player sits at \<open>y = - 60\<close> and an obstacle spawned at \<open>y = - 100\<close> is
  within reach in the frame that spawns it; this keeps the runs below short. \<open>Math.cos\<close>
  and \<open>Math.sin\<close> are needed at angle 0 only, where the two polynomials are exact. The
  argument is the sequence \<open>Math.random()\<close> returns during the event.
\<close>

definition tinyWindow :: "(nat \<Rightarrow> rat) \<Rightarrow> env" where
  "tinyWindow rnd = \<lparr>e_time = 0, e_now = 0, e_dateNow = 0, e_canvas = Some (300, 40), e_ctx = True,
     e_innerWidth = 300, e_innerHeight = 40, e_random = rnd,
     e_cos = (\<lambda>a. 1 - a * a / 2), e_sin = (\<lambda>a. a), e_pi = 355 / 113\<rparr>"

text \<open>
  In a frame the first draw decides the spawn (line 166), the second the lane (line 82),
  the third the kind (line 83). \<open>envQuiet\<close> spawns nothing, \<open>envAura\<close> an aura and
  \<open>envBlock\<close> a block, both in the middle lane, \<open>envLeftBlock\<close> a block in the left
  lane.
\<close>

definition envQuiet :: env where
  "envQuiet = tinyWindow (\<lambda>k. 1 / 2)"

definition envAura :: env where
  "envAura = tinyWindow (\<lambda>k. if k = 1 then 1 / 2 else if k = 2 then 9 / 10 else 0)"

definition envBlock :: env where
  "envBlock = tinyWindow (\<lambda>k. if k = 1 then 1 / 2 else 0)"

definition envLeftBlock :: env where
  "envLeftBlock = tinyWindow (\<lambda>k. 0)"

text \<open>The view of the render that follows \<open>startGame\<close> on a fresh installation.\<close>

definition startView :: view where
  "startView = \<lparr>v_gameState = PLAYING, v_score = 0, v_highScore = Num 0, v_isFlowState = False,
     v_playerLane = 1, v_isShaking = False\<rparr>"

text \<open>
  A run in progress in that window: the loop is the one started with \<open>startView\<close>, no
  obstacle is on its way, nothing has been stored, no time has passed. It is \<open>running\<close>
  when React has work marked on the component, as after every render that changed the
  state, and \<open>idle\<close> when it has none, as after a render that was dropped.
\<close>

definition inRun :: "game \<Rightarrow> bool" where
  "inRun g \<longleftrightarrow>
     loopInv g \<and> pendingFrame g = Some startView \<and> obstacles g = [] \<and> 5 \<le> speed g \<and> speed g \<le> 6 \<and>
     highScore g = Num 0 \<and> storage g = None \<and> setItemLog g = [] \<and> clock g = 0"

definition running :: "game \<Rightarrow> bool" where
  "running g \<longleftrightarrow> inRun g \<and> lanes g"

definition idle :: "game \<Rightarrow> bool" where
  "idle g \<longleftrightarrow> inRun g \<and> \<not> lanes g"

text \<open>
  The states of the runs: the game just started with nothing stored; nine auras picked
  up, one per frame; the tenth picked up, which turns power mode on.
\<close>

definition started :: game where
  "started = step envQuiet Start (init None)"

definition nineAuras :: game where
  "nineAuras = run (replicate 9 (envAura, Frame)) started"

definition powered :: game where
  "powered = step envAura Frame nineAuras"

text \<open>
  With nine auras counted the player moves to the left lane and presses the left arrow
  once more. That key changes nothing, so React drops the render it asked for and has no
  work marked when the next frame comes (\<open>atNine\<close>). The frame loop still works with the
  middle lane, so an aura that comes down there is picked up: this is the tenth
  (\<open>atTen\<close>). The same again for an eleventh (\<open>overTen\<close>).
\<close>

definition atNine :: game where
  "atNine = run [(envQuiet, KeyDown ''ArrowLeft''), (envQuiet, KeyDown ''ArrowLeft'')] nineAuras"

definition atTen :: game where
  "atTen = step envAura Frame atNine"

definition overTen :: game where
  "overTen = run [(envQuiet, KeyDown ''ArrowLeft''), (envAura, Frame)] atTen"

text \<open>The game just started, the player moved to the left lane.\<close>

definition sideStep :: game where
  "sideStep = step envQuiet (KeyDown ''ArrowLeft'') started"

text \<open>A run of one quiet frame that then hits a block; and one of an aura, then a block.\<close>

definition lostRecord :: game where
  "lostRecord = run [(envQuiet, Start), (envQuiet, Frame), (envBlock, Frame)] (init None)"



section \<open>Lemmas\<close>

subsection \<open>The state setters\<close>

lemmas setters =
  dispatch_def setGameState_def setScore_def setHighScore_def setPlayerLane_def
  setGameOverText_def setIsFlowState_def setIsShaking_def setAuraCount_def

lemma createParticles_eq:
  "createParticles e x y c n opts g =
     g\<lparr>particles := particles g @ burst e x y c opts (drawn g) n, drawn := drawn g + 5 * n\<rparr>"
proof (induction n arbitrary: g)
  case 0
  show ?case by simp
next
  case (Suc n)
  show ?case by (simp add: Suc.IH)
qed

lemma triggerShake_fields:
  "speed (triggerShake ph d g) = speed g"
  "clock (triggerShake ph d g) = clock g"
  "playerLane (triggerShake ph d g) = playerLane g"
  "pendingFrame (triggerShake ph d g) = pendingFrame g"
  "effectDep (triggerShake ph d g) = effectDep g"
  "auraCount (triggerShake ph d g) = auraCount g"
  "lastTime (triggerShake ph d g) = lastTime g"
  "obstacles (triggerShake ph d g) = obstacles g"
  "lastRender (triggerShake ph d g) = lastRender g"
  "gameState (triggerShake ph d g) = gameState g"
  "score (triggerShake ph d g) = score g"
  "highScore (triggerShake ph d g) = highScore g"
  "gameOverText (triggerShake ph d g) = gameOverText g"
  "storage (triggerShake ph d g) = storage g"
  "setItemLog (triggerShake ph d g) = setItemLog g"
  "auraQueue (triggerShake ph d g) = auraQueue g"
  "isFlowState (triggerShake ph d g) = isFlowState g"
  "flowStateTimer (triggerShake ph d g) = flowStateTimer g"
  "particles (triggerShake ph d g) = particles g"
  "drawn (triggerShake ph d g) = drawn g"
  "isShaking (triggerShake ph d g) = True"
  "shakeTimer (triggerShake ph d g) = Some (clock g + d)"
  by (simp_all add: triggerShake_def setters Let_def)

lemma triggerShake_lanes:
  "lanes (triggerShake InRender d g) = lanes g"
  "scheduled (triggerShake InRender d g) = scheduled g"
  "lanes g \<Longrightarrow> lanes (triggerShake InEvent d g)"
  "lanes g \<Longrightarrow> scheduled (triggerShake InEvent d g)"
  "scheduled g \<Longrightarrow> scheduled (triggerShake ph d g)"
  by (simp_all add: triggerShake_def setters Let_def)

lemma endGame_fields:
  "speed (endGame v e g) = speed g"
  "clock (endGame v e g) = clock g"
  "playerLane (endGame v e g) = playerLane g"
  "pendingFrame (endGame v e g) = pendingFrame g"
  "effectDep (endGame v e g) = effectDep g"
  "auraCount (endGame v e g) = auraCount g"
  "lastTime (endGame v e g) = lastTime g"
  "obstacles (endGame v e g) = obstacles g"
  "lastRender (endGame v e g) = lastRender g"
  "score (endGame v e g) = score g"
  "auraQueue (endGame v e g) = auraQueue g"
  "isFlowState (endGame v e g) = isFlowState g"
  "isShaking (endGame v e g) = isShaking g"
  "shakeTimer (endGame v e g) = shakeTimer g"
  "particles (endGame v e g) = particles g"
  "gameState (endGame v e g) = GAME_OVER"
  "flowStateTimer (endGame v e g) = None"
  "highScore (endGame v e g) =
     (if js_gt (v_score v) (v_highScore v) then Num (v_score v) else highScore g)"
  "storage (endGame v e g) =
     (if js_gt (v_score v) (v_highScore v) then Some (toString (v_score v)) else storage g)"
  "setItemLog (endGame v e g) =
     (if js_gt (v_score v) (v_highScore v) then setItemLog g @ [toString (v_score v)]
      else setItemLog g)"
  by (simp_all add: endGame_def setters mathRandom_def setItem_def Let_def)

lemma endGame_lanes:
  "lanes g \<Longrightarrow> lanes (endGame v e g)"
  "scheduled g \<Longrightarrow> scheduled (endGame v e g)"
  by (simp_all add: endGame_def setters mathRandom_def setItem_def Let_def)

lemma activateFlowState_fields:
  "gameState (activateFlowState ph e g) = gameState g"
  "effectDep (activateFlowState ph e g) = effectDep g"
  "pendingFrame (activateFlowState ph e g) = pendingFrame g"
  "obstacles (activateFlowState ph e g) = obstacles g"
  "speed (activateFlowState ph e g) = speed g"
  "score (activateFlowState ph e g) = score g"
  "playerLane (activateFlowState ph e g) = playerLane g"
  "highScore (activateFlowState ph e g) = highScore g"
  "gameOverText (activateFlowState ph e g) = gameOverText g"
  "storage (activateFlowState ph e g) = storage g"
  "setItemLog (activateFlowState ph e g) = setItemLog g"
  "clock (activateFlowState ph e g) = clock g"
  "lastTime (activateFlowState ph e g) = lastTime g"
  "lastRender (activateFlowState ph e g) = lastRender g"
  "auraCount (activateFlowState ph e g) = auraCount g"
  "isFlowState (activateFlowState ph e g) = True"
  "isShaking (activateFlowState ph e g) = True"
  "flowStateTimer (activateFlowState ph e g) = Some (clock g + FLOW_STATE_DURATION)"
  "shakeTimer (activateFlowState ph e g) = Some (clock g + 500)"
  "particles (activateFlowState ph e g) =
     particles g @ burst e (e_innerWidth e / 2) (e_innerHeight e / 2) ''#00ffff''
                     (no_options\<lparr>opt_size := Some 6, opt_glow := Some True\<rparr>) (drawn g) 100
       @ burst e (e_innerWidth e / 2) (e_innerHeight e / 2) ''#ff00ff''
           (no_options\<lparr>opt_size := Some 4, opt_glow := Some True\<rparr>) (drawn g + 500) 50"
  "drawn (activateFlowState ph e g) = drawn g + 750"
  by (simp_all add: activateFlowState_def triggerShake_def setters createParticles_eq Let_def)

lemma activateFlowState_InRender:
  "auraQueue (activateFlowState InRender e g) = auraQueue g @ [SetAura 0]"
  "lanes (activateFlowState InRender e g) = lanes g"
  "scheduled (activateFlowState InRender e g) = scheduled g"
  by (simp_all add: activateFlowState_def triggerShake_def setters createParticles_eq Let_def)

text \<open>
  Called from the frame with a count other than 0 at the last render, \<open>activateFlowState\<close>
  queues its \<open>setAuraCount(0)\<close> and leaves work marked.
\<close>

lemma activateFlowState_InEvent:
  assumes "auraCount g \<noteq> 0"
  shows "auraQueue (activateFlowState InEvent e g) = auraQueue g @ [SetAura 0]"
    and "lanes (activateFlowState InEvent e g)"
    and "scheduled (activateFlowState InEvent e g)"
  using assms
  by (simp_all add: activateFlowState_def triggerShake_def setters createParticles_eq Let_def)

subsection \<open>The call of lines 186-192\<close>

lemma setAuraCountUpdater_fields:
  "speed (setAuraCountUpdater v e g) = speed g"
  "clock (setAuraCountUpdater v e g) = clock g"
  "playerLane (setAuraCountUpdater v e g) = playerLane g"
  "pendingFrame (setAuraCountUpdater v e g) = pendingFrame g"
  "effectDep (setAuraCountUpdater v e g) = effectDep g"
  "auraCount (setAuraCountUpdater v e g) = auraCount g"
  "lastTime (setAuraCountUpdater v e g) = lastTime g"
  "obstacles (setAuraCountUpdater v e g) = obstacles g"
  "lastRender (setAuraCountUpdater v e g) = lastRender g"
  "gameState (setAuraCountUpdater v e g) = gameState g"
  "score (setAuraCountUpdater v e g) = score g"
  "highScore (setAuraCountUpdater v e g) = highScore g"
  "gameOverText (setAuraCountUpdater v e g) = gameOverText g"
  "storage (setAuraCountUpdater v e g) = storage g"
  "setItemLog (setAuraCountUpdater v e g) = setItemLog g"
  "lanes (setAuraCountUpdater v e g)"
  "scheduled (setAuraCountUpdater v e g)"
  by (simp_all add: setAuraCountUpdater_def activateFlowState_fields Let_def)


text \<open>With work marked, the updater waits in the queue and nothing else happens.\<close>

lemma setAuraCountUpdater_lazy:
  "lanes g \<Longrightarrow>
   setAuraCountUpdater v e g =
     g\<lparr>auraQueue := auraQueue g @ [IncAura (v_isFlowState v)], scheduled := True\<rparr>"
  by (simp add: setAuraCountUpdater_def)

text \<open>
  With none marked, the updater runs at the call. From a count of 9 or more, and for a
  closure that sees no power mode, \<open>activateFlowState\<close> runs before the update is
  queued.
\<close>

lemma setAuraCountUpdater_eager:
  assumes "\<not> lanes g" and "9 \<le> auraCount g" and "\<not> v_isFlowState v"
  shows "auraQueue (setAuraCountUpdater v e g) = auraQueue g @ [SetAura 0, EagerAura (auraCount g + 1)]"
    and "isFlowState (setAuraCountUpdater v e g)"
    and "isShaking (setAuraCountUpdater v e g)"
    and "flowStateTimer (setAuraCountUpdater v e g) = Some (clock g + FLOW_STATE_DURATION)"
    and "shakeTimer (setAuraCountUpdater v e g) = Some (clock g + 500)"
    and "drawn (setAuraCountUpdater v e g) = drawn g + 750"
proof -
  have n: "auraCount g \<noteq> 0" using assms(2) by simp
  show "auraQueue (setAuraCountUpdater v e g) = auraQueue g @ [SetAura 0, EagerAura (auraCount g + 1)]"
    using assms by (simp add: setAuraCountUpdater_def activateFlowState_InEvent(1) [OF n] Let_def)
  show "isFlowState (setAuraCountUpdater v e g)"
    using assms by (simp add: setAuraCountUpdater_def activateFlowState_fields Let_def)
  show "isShaking (setAuraCountUpdater v e g)"
    using assms by (simp add: setAuraCountUpdater_def activateFlowState_fields Let_def)
  show "flowStateTimer (setAuraCountUpdater v e g) = Some (clock g + FLOW_STATE_DURATION)"
    using assms by (simp add: setAuraCountUpdater_def activateFlowState_fields Let_def)
  show "shakeTimer (setAuraCountUpdater v e g) = Some (clock g + 500)"
    using assms by (simp add: setAuraCountUpdater_def activateFlowState_fields Let_def)
  show "drawn (setAuraCountUpdater v e g) = drawn g + 750"
    using assms by (simp add: setAuraCountUpdater_def activateFlowState_fields Let_def)
qed




subsection \<open>The obstacle callback and the filter\<close>

lemma callback_unfold:
  "obstacleCallback v e obs g =
     (if hits v e (advance (speed g) obs) then
        ((advance (speed g) obs, False),
         (if o_type obs = AURA then
            triggerShake InEvent 100
              (createParticles e (laneCenter (the (e_canvas e)) (o_lane obs)) (o_y obs + speed g) ''#ffffff'' 10
                 (no_options\<lparr>opt_size := Some 2, opt_glow := Some False\<rparr>)
                 (createParticles e (laneCenter (the (e_canvas e)) (o_lane obs)) (o_y obs + speed g) ''#00ffff'' 20
                    (no_options\<lparr>opt_size := Some 5, opt_glow := Some True\<rparr>)
                    (setAuraCountUpdater v e g)))
          else if v_isFlowState v then
            triggerShake InEvent 150
              (setScore (\<lambda>s. s + 50)
                 (createParticles e (laneCenter (the (e_canvas e)) (o_lane obs)) (o_y obs + speed g) ''#ff00ff'' 30
                    (no_options\<lparr>opt_size := Some 6, opt_glow := Some True\<rparr>) g))
          else endGame v e g))
      else ((advance (speed g) obs, onScreen e (advance (speed g) obs)), g))"
  by (simp add: obstacleCallback_def hits_def advance_def Let_def split: option.splits)

lemma callback_static:
  "speed (snd (obstacleCallback v e obs g)) = speed g"
  "clock (snd (obstacleCallback v e obs g)) = clock g"
  "playerLane (snd (obstacleCallback v e obs g)) = playerLane g"
  "pendingFrame (snd (obstacleCallback v e obs g)) = pendingFrame g"
  "effectDep (snd (obstacleCallback v e obs g)) = effectDep g"
  "auraCount (snd (obstacleCallback v e obs g)) = auraCount g"
  "lastTime (snd (obstacleCallback v e obs g)) = lastTime g"
  "obstacles (snd (obstacleCallback v e obs g)) = obstacles g"
  "lastRender (snd (obstacleCallback v e obs g)) = lastRender g"
  by (simp_all add: callback_unfold createParticles_eq triggerShake_fields endGame_fields
        setAuraCountUpdater_fields setScore_def dispatch_def)

lemma callback_fst:
  "fst (obstacleCallback v e obs g) =
     (advance (speed g) obs, \<not> hits v e (advance (speed g) obs) \<and> onScreen e (advance (speed g) obs))"
  by (simp add: callback_unfold)

lemma callback_gameState:
  "gameState (snd (obstacleCallback v e obs g)) =
     (if hits v e (advance (speed g) obs) \<and> o_type obs = BLOCK \<and> \<not> v_isFlowState v then GAME_OVER else gameState g)"
  by (cases "o_type obs")
    (simp_all add: callback_unfold createParticles_eq triggerShake_fields endGame_fields
        setAuraCountUpdater_fields setScore_def dispatch_def)

lemma callback_score:
  "score (snd (obstacleCallback v e obs g)) =
     (if hits v e (advance (speed g) obs) \<and> o_type obs = BLOCK \<and> v_isFlowState v then score g + 50 else score g)"
  by (cases "o_type obs")
    (simp_all add: callback_unfold createParticles_eq triggerShake_fields endGame_fields
        setAuraCountUpdater_fields setScore_def dispatch_def)

lemma callback_highScore:
  "highScore (snd (obstacleCallback v e obs g)) =
     (if hits v e (advance (speed g) obs) \<and> o_type obs = BLOCK \<and> \<not> v_isFlowState v \<and>
         js_gt (v_score v) (v_highScore v)
      then Num (v_score v) else highScore g)"
  by (cases "o_type obs")
    (simp_all add: callback_unfold createParticles_eq triggerShake_fields endGame_fields
        setAuraCountUpdater_fields setScore_def dispatch_def)

lemma callback_store:
  "\<not> js_gt (v_score v) (v_highScore v) \<Longrightarrow>
   highScore (snd (obstacleCallback v e obs g)) = highScore g \<and>
   storage (snd (obstacleCallback v e obs g)) = storage g \<and>
   setItemLog (snd (obstacleCallback v e obs g)) = setItemLog g"
  by (simp add: callback_unfold createParticles_eq triggerShake_fields endGame_fields
        setAuraCountUpdater_fields setScore_def dispatch_def)



text \<open>With work marked on the component: every updater waits for the render.\<close>

lemma callback_lanes:
  "lanes g \<Longrightarrow> lanes (snd (obstacleCallback v e obs g))"
  by (simp add: callback_unfold createParticles_eq triggerShake_lanes endGame_lanes
        setAuraCountUpdater_fields setScore_def dispatch_def)

lemma callback_auraQueue:
  "lanes g \<Longrightarrow>
   auraQueue (snd (obstacleCallback v e obs g)) =
     auraQueue g @ (if hits v e (advance (speed g) obs) \<and> o_type obs = AURA then [IncAura (v_isFlowState v)] else [])"
  by (simp add: callback_unfold createParticles_eq triggerShake_fields endGame_fields
        setAuraCountUpdater_lazy setScore_def dispatch_def)

lemma callback_isFlowState:
  "lanes g \<Longrightarrow> isFlowState (snd (obstacleCallback v e obs g)) = isFlowState g"
  by (simp add: callback_unfold createParticles_eq triggerShake_fields endGame_fields
        setAuraCountUpdater_lazy setScore_def dispatch_def)

lemma callback_flowStateTimer:
  "lanes g \<Longrightarrow>
   flowStateTimer (snd (obstacleCallback v e obs g)) =
     (if hits v e (advance (speed g) obs) \<and> o_type obs = BLOCK \<and> \<not> v_isFlowState v then None else flowStateTimer g)"
  by (cases "o_type obs")
   (simp_all add: callback_unfold createParticles_eq triggerShake_fields endGame_fields
        setAuraCountUpdater_lazy setScore_def dispatch_def)

lemma callback_shakeTimer:
  "lanes g \<Longrightarrow> \<not> v_isFlowState v \<Longrightarrow>
   shakeTimer (snd (obstacleCallback v e obs g)) =
     (if hits v e (advance (speed g) obs) \<and> o_type obs = AURA then Some (clock g + 100)
      else shakeTimer g)"
  by (cases "o_type obs")
   (simp_all add: callback_unfold createParticles_eq triggerShake_fields endGame_fields
        setAuraCountUpdater_lazy setScore_def dispatch_def)

lemma filterObstacles_Cons:
  "filterObstacles v e (obs # rest) g =
     (let r = obstacleCallback v e obs g; rs = filterObstacles v e rest (snd r)
      in (if snd (fst r) then fst (fst r) # fst rs else fst rs, snd rs))"
  by (simp add: Let_def split: prod.splits)

lemma filter_static:
  "speed (snd (filterObstacles v e os g)) = speed g \<and>
   clock (snd (filterObstacles v e os g)) = clock g \<and>
   playerLane (snd (filterObstacles v e os g)) = playerLane g \<and>
   pendingFrame (snd (filterObstacles v e os g)) = pendingFrame g \<and>
   effectDep (snd (filterObstacles v e os g)) = effectDep g \<and>
   auraCount (snd (filterObstacles v e os g)) = auraCount g \<and>
   lastTime (snd (filterObstacles v e os g)) = lastTime g \<and>
   obstacles (snd (filterObstacles v e os g)) = obstacles g \<and>
   lastRender (snd (filterObstacles v e os g)) = lastRender g"
proof (induction os arbitrary: g)
  case Nil
  show ?case by simp
next
  case (Cons obs rest)
  show ?case
    using Cons.IH [of "snd (obstacleCallback v e obs g)"]
    by (simp add: filterObstacles_Cons Let_def callback_static del: filterObstacles.simps)
qed

lemma filter_fst:
  "fst (filterObstacles v e os g) =
     map (advance (speed g))
       (filter (\<lambda>obs. \<not> hits v e (advance (speed g) obs) \<and> onScreen e (advance (speed g) obs)) os)"
proof (induction os arbitrary: g)
  case Nil
  show ?case by simp
next
  case (Cons obs rest)
  show ?case
    using Cons.IH [of "snd (obstacleCallback v e obs g)"]
    by (simp add: filterObstacles_Cons Let_def callback_static callback_fst del: filterObstacles.simps)
qed

lemma filter_gameState:
  "gameState (snd (filterObstacles v e os g)) =
     (if \<not> v_isFlowState v \<and> (\<exists>obs \<in> set os. hits v e (advance (speed g) obs) \<and> o_type obs = BLOCK)
      then GAME_OVER else gameState g)"
proof (induction os arbitrary: g)
  case Nil
  show ?case by simp
next
  case (Cons obs rest)
  show ?case
    using Cons.IH [of "snd (obstacleCallback v e obs g)"]
    by (auto simp add: filterObstacles_Cons Let_def callback_static callback_gameState simp del: filterObstacles.simps)
qed

lemma filter_score:
  "score (snd (filterObstacles v e os g)) =
     (if v_isFlowState v
      then score g + 50 * int (length (filter (\<lambda>obs. hits v e (advance (speed g) obs) \<and> o_type obs = BLOCK) os))
      else score g)"
proof (induction os arbitrary: g)
  case Nil
  show ?case by simp
next
  case (Cons obs rest)
  show ?case
    using Cons.IH [of "snd (obstacleCallback v e obs g)"]
    by (simp add: filterObstacles_Cons Let_def callback_static callback_score del: filterObstacles.simps)
qed

lemma filter_highScore:
  "highScore (snd (filterObstacles v e os g)) =
     (if \<not> v_isFlowState v \<and> (\<exists>obs \<in> set os. hits v e (advance (speed g) obs) \<and> o_type obs = BLOCK) \<and>
         js_gt (v_score v) (v_highScore v)
      then Num (v_score v) else highScore g)"
proof (induction os arbitrary: g)
  case Nil
  show ?case by simp
next
  case (Cons obs rest)
  show ?case
    using Cons.IH [of "snd (obstacleCallback v e obs g)"]
    by (auto simp add: filterObstacles_Cons Let_def callback_static callback_highScore
          simp del: filterObstacles.simps)
qed

lemma filter_store:
  "\<not> js_gt (v_score v) (v_highScore v) \<Longrightarrow>
   highScore (snd (filterObstacles v e os g)) = highScore g \<and>
   storage (snd (filterObstacles v e os g)) = storage g \<and>
   setItemLog (snd (filterObstacles v e os g)) = setItemLog g"
proof (induction os arbitrary: g)
  case Nil
  show ?case by simp
next
  case (Cons obs rest)
  show ?case
    using Cons.IH [OF Cons.prems, of "snd (obstacleCallback v e obs g)"] callback_store [OF Cons.prems, of e obs g]
    by (simp add: filterObstacles_Cons Let_def del: filterObstacles.simps)
qed



lemma filter_lanes:
  "lanes g \<Longrightarrow> lanes (snd (filterObstacles v e os g))"
proof (induction os arbitrary: g)
  case Nil
  then show ?case by simp
next
  case (Cons obs rest)
  show ?case
    using Cons.IH [OF callback_lanes [OF Cons.prems, of v e obs]]
    by (simp add: filterObstacles_Cons Let_def del: filterObstacles.simps)
qed

lemma filter_auraQueue:
  "lanes g \<Longrightarrow>
   auraQueue (snd (filterObstacles v e os g)) =
     auraQueue g @
       replicate (length (filter (\<lambda>obs. hits v e (advance (speed g) obs) \<and> o_type obs = AURA) os))
         (IncAura (v_isFlowState v))"
proof (induction os arbitrary: g)
  case Nil
  show ?case by simp
next
  case (Cons obs rest)
  show ?case
    using Cons.IH [OF callback_lanes [OF Cons.prems, of v e obs]]
    by (simp add: filterObstacles_Cons Let_def callback_static callback_auraQueue [OF Cons.prems]
          del: filterObstacles.simps)
qed

lemma filter_isFlowState:
  "lanes g \<Longrightarrow> isFlowState (snd (filterObstacles v e os g)) = isFlowState g"
proof (induction os arbitrary: g)
  case Nil
  show ?case by simp
next
  case (Cons obs rest)
  show ?case
    using Cons.IH [OF callback_lanes [OF Cons.prems, of v e obs]]
    by (simp add: filterObstacles_Cons Let_def callback_isFlowState [OF Cons.prems]
          del: filterObstacles.simps)
qed

lemma filter_flowStateTimer:
  "lanes g \<Longrightarrow>
   flowStateTimer (snd (filterObstacles v e os g)) =
     (if \<not> v_isFlowState v \<and> (\<exists>obs \<in> set os. hits v e (advance (speed g) obs) \<and> o_type obs = BLOCK)
      then None else flowStateTimer g)"
proof (induction os arbitrary: g)
  case Nil
  show ?case by simp
next
  case (Cons obs rest)
  show ?case
    using Cons.IH [OF callback_lanes [OF Cons.prems, of v e obs]]
    by (auto simp add: filterObstacles_Cons Let_def callback_static callback_flowStateTimer [OF Cons.prems]
          simp del: filterObstacles.simps)
qed

lemma filter_shakeTimer:
  "lanes g \<Longrightarrow> \<not> v_isFlowState v \<Longrightarrow>
   shakeTimer (snd (filterObstacles v e os g)) =
     (if \<exists>obs \<in> set os. hits v e (advance (speed g) obs) \<and> o_type obs = AURA
      then Some (clock g + 100) else shakeTimer g)"
proof (induction os arbitrary: g)
  case Nil
  show ?case by simp
next
  case (Cons obs rest)
  show ?case
    using Cons.IH [OF callback_lanes [OF Cons.prems(1), of v e obs] Cons.prems(2)]
    by (auto simp add: filterObstacles_Cons Let_def callback_static
          callback_shakeTimer [OF Cons.prems] simp del: filterObstacles.simps)
qed

subsection \<open>The frame callback as a whole\<close>

lemma beforeFilter_static:
  "gameState (beforeFilter e g) = gameState g"
  "score (beforeFilter e g) = score g"
  "highScore (beforeFilter e g) = highScore g"
  "auraCount (beforeFilter e g) = auraCount g"
  "isFlowState (beforeFilter e g) = isFlowState g"
  "playerLane (beforeFilter e g) = playerLane g"
  "auraQueue (beforeFilter e g) = auraQueue g"
  "effectDep (beforeFilter e g) = effectDep g"
  "particles (beforeFilter e g) = particles g"
  "flowStateTimer (beforeFilter e g) = flowStateTimer g"
  "shakeTimer (beforeFilter e g) = shakeTimer g"
  "pendingFrame (beforeFilter e g) = pendingFrame g"
  "clock (beforeFilter e g) = clock g"
  "storage (beforeFilter e g) = storage g"
  "setItemLog (beforeFilter e g) = setItemLog g"
  "lanes (beforeFilter e g) = lanes g"
  "scheduled (beforeFilter e g) = scheduled g"
  "lastRender (beforeFilter e g) = lastRender g"
  "speed (beforeFilter e g) = speed g + SPEED_INCREMENT"
  by (simp_all add: beforeFilter_def spawnObstacle_def mathRandom_def Let_def)

lemma afterFilter_static:
  "gameState (afterFilter v e g) = gameState g"
  "highScore (afterFilter v e g) = highScore g"
  "auraCount (afterFilter v e g) = auraCount g"
  "isFlowState (afterFilter v e g) = isFlowState g"
  "playerLane (afterFilter v e g) = playerLane g"
  "auraQueue (afterFilter v e g) = auraQueue g"
  "effectDep (afterFilter v e g) = effectDep g"
  "obstacles (afterFilter v e g) = obstacles g"
  "speed (afterFilter v e g) = speed g"
  "flowStateTimer (afterFilter v e g) = flowStateTimer g"
  "shakeTimer (afterFilter v e g) = shakeTimer g"
  "clock (afterFilter v e g) = clock g"
  "storage (afterFilter v e g) = storage g"
  "setItemLog (afterFilter v e g) = setItemLog g"
  "lastRender (afterFilter v e g) = lastRender g"
  "score (afterFilter v e g) = score g + 1"
  "pendingFrame (afterFilter v e g) = Some v"
  "lanes (afterFilter v e g)"
  "scheduled (afterFilter v e g)"
  by (simp_all add: afterFilter_def playerTrail_def draw_def requestAnimationFrame_def
        mathRandom_def createParticles_eq setScore_def dispatch_def Let_def split: option.splits)



lemma update_unfold:
  "v_gameState v = PLAYING \<Longrightarrow>
   update v e g =
     afterFilter v e
       ((snd (filterObstacles v e (obstacles (beforeFilter e g)) (beforeFilter e g)))
          \<lparr>obstacles := fst (filterObstacles v e (obstacles (beforeFilter e g)) (beforeFilter e g))\<rparr>)"
  by (simp add: update_def Let_def split: prod.splits)

lemma update_gameState:
  "v_gameState v = PLAYING \<Longrightarrow>
   gameState (update v e g) =
     (if \<not> v_isFlowState v \<and> (\<exists>obs \<in> set (struck v e g). o_type obs = BLOCK)
      then GAME_OVER else gameState g)"
  by (auto simp add: update_unfold afterFilter_static filter_gameState beforeFilter_static struck_def)

lemma update_score:
  "v_gameState v = PLAYING \<Longrightarrow>
   score (update v e g) =
     score g + 1 +
       (if v_isFlowState v then 50 * int (length (filter (\<lambda>obs. o_type obs = BLOCK) (struck v e g))) else 0)"
  by (simp add: update_unfold afterFilter_static filter_score beforeFilter_static struck_def conj_commute)

lemma update_static:
  "v_gameState v = PLAYING \<Longrightarrow>
   auraCount (update v e g) = auraCount g \<and>
   effectDep (update v e g) = effectDep g \<and> clock (update v e g) = clock g \<and>
   playerLane (update v e g) = playerLane g \<and> pendingFrame (update v e g) = Some v \<and>
   speed (update v e g) = speed g + SPEED_INCREMENT \<and> lastRender (update v e g) = lastRender g \<and>
   lanes (update v e g) \<and> scheduled (update v e g)"
  using filter_static [of v e "obstacles (beforeFilter e g)" "beforeFilter e g"]
  by (simp add: update_unfold afterFilter_static beforeFilter_static)

lemma update_obstacles:
  "v_gameState v = PLAYING \<Longrightarrow>
   obstacles (update v e g) =
     map (advance (speed g + SPEED_INCREMENT))
       (filter (\<lambda>obs. \<not> hits v e (advance (speed g + SPEED_INCREMENT) obs) \<and>
                      onScreen e (advance (speed g + SPEED_INCREMENT) obs))
          (obstacles (beforeFilter e g)))"
  by (simp add: update_unfold afterFilter_static filter_fst beforeFilter_static)

lemma update_highScore:
  "v_gameState v = PLAYING \<Longrightarrow>
   highScore (update v e g) =
     (if \<not> v_isFlowState v \<and> (\<exists>obs \<in> set (struck v e g). o_type obs = BLOCK) \<and>
         js_gt (v_score v) (v_highScore v)
      then Num (v_score v) else highScore g)"
  by (auto simp add: update_unfold afterFilter_static filter_highScore beforeFilter_static struck_def)

lemma update_store:
  "v_gameState v = PLAYING \<Longrightarrow> \<not> js_gt (v_score v) (v_highScore v) \<Longrightarrow>
   highScore (update v e g) = highScore g \<and> storage (update v e g) = storage g \<and>
   setItemLog (update v e g) = setItemLog g"
  using filter_store [of v e "obstacles (beforeFilter e g)" "beforeFilter e g"]
  by (simp add: update_unfold afterFilter_static beforeFilter_static)



text \<open>With work marked on the component.\<close>

lemma update_auraQueue:
  "v_gameState v = PLAYING \<Longrightarrow> lanes g \<Longrightarrow>
   auraQueue (update v e g) =
     auraQueue g @
       replicate (length (filter (\<lambda>obs. o_type obs = AURA) (struck v e g))) (IncAura (v_isFlowState v))"
  by (simp add: update_unfold afterFilter_static filter_auraQueue beforeFilter_static struck_def conj_commute)

lemma update_isFlowState:
  "v_gameState v = PLAYING \<Longrightarrow> lanes g \<Longrightarrow> isFlowState (update v e g) = isFlowState g"
  by (simp add: update_unfold afterFilter_static filter_isFlowState beforeFilter_static)

lemma update_flowStateTimer:
  "v_gameState v = PLAYING \<Longrightarrow> lanes g \<Longrightarrow>
   flowStateTimer (update v e g) =
     (if \<not> v_isFlowState v \<and> (\<exists>obs \<in> set (struck v e g). o_type obs = BLOCK)
      then None else flowStateTimer g)"
  by (auto simp add: update_unfold afterFilter_static filter_flowStateTimer beforeFilter_static struck_def)

lemma update_shakeTimer:
  "v_gameState v = PLAYING \<Longrightarrow> lanes g \<Longrightarrow> \<not> v_isFlowState v \<Longrightarrow>
   shakeTimer (update v e g) =
     (if \<exists>obs \<in> set (struck v e g). o_type obs = AURA then Some (clock g + 100) else shakeTimer g)"
  by (auto simp add: update_unfold afterFilter_static filter_shakeTimer beforeFilter_static struck_def)

subsection \<open>Rendering: the queue of aura updates\<close>

lemma applyAuraUpdate_static:
  "gameState (applyAuraUpdate e u g) = gameState g \<and>
   effectDep (applyAuraUpdate e u g) = effectDep g \<and>
   pendingFrame (applyAuraUpdate e u g) = pendingFrame g \<and>
   obstacles (applyAuraUpdate e u g) = obstacles g \<and>
   speed (applyAuraUpdate e u g) = speed g \<and>
   score (applyAuraUpdate e u g) = score g \<and>
   playerLane (applyAuraUpdate e u g) = playerLane g \<and>
   highScore (applyAuraUpdate e u g) = highScore g \<and>
   gameOverText (applyAuraUpdate e u g) = gameOverText g \<and>
   storage (applyAuraUpdate e u g) = storage g \<and>
   setItemLog (applyAuraUpdate e u g) = setItemLog g \<and>
   clock (applyAuraUpdate e u g) = clock g \<and>
   lanes (applyAuraUpdate e u g) = lanes g \<and>
   scheduled (applyAuraUpdate e u g) = scheduled g \<and>
   lastRender (applyAuraUpdate e u g) = lastRender g"
  by (cases u) (simp_all add: applyAuraUpdate_def activateFlowState_fields activateFlowState_InRender Let_def)

lemma drainAura_static:
  "gameState (drainAura e us g) = gameState g \<and>
   effectDep (drainAura e us g) = effectDep g \<and>
   pendingFrame (drainAura e us g) = pendingFrame g \<and>
   obstacles (drainAura e us g) = obstacles g \<and>
   speed (drainAura e us g) = speed g \<and>
   score (drainAura e us g) = score g \<and>
   playerLane (drainAura e us g) = playerLane g \<and>
   highScore (drainAura e us g) = highScore g \<and>
   gameOverText (drainAura e us g) = gameOverText g \<and>
   storage (drainAura e us g) = storage g \<and>
   setItemLog (drainAura e us g) = setItemLog g \<and>
   clock (drainAura e us g) = clock g \<and>
   lanes (drainAura e us g) = lanes g \<and>
   scheduled (drainAura e us g) = scheduled g \<and>
   lastRender (drainAura e us g) = lastRender g"
proof (induction us arbitrary: g)
  case Nil
  show ?case by simp
next
  case (Cons u us)
  show ?case
    using Cons.IH [of "applyAuraUpdate e u g"] applyAuraUpdate_static [of e u g] by simp
qed

lemma drainAura_sets:
  "drainAura e (replicate m (SetAura n)) g = (if m = 0 then g else g\<lparr>auraCount := n\<rparr>)"
proof (induction m arbitrary: g)
  case 0
  show ?case by simp
next
  case (Suc m)
  show ?case by (simp add: Suc.IH applyAuraUpdate_def)
qed

text \<open>Whatever the queue, a round adds nothing to it but \<open>setAuraCount(0)\<close>.\<close>

lemma drainAura_queue:
  "\<exists>m. auraQueue (drainAura e us g) = auraQueue g @ replicate m (SetAura 0)"
proof (induction us arbitrary: g)
  case Nil
  show ?case by (rule exI [of _ 0]) simp
next
  case (Cons u us)
  obtain k where k: "auraQueue (applyAuraUpdate e u g) = auraQueue g @ replicate k (SetAura 0)"
  proof (cases u)
    case (SetAura n)
    then have "auraQueue (applyAuraUpdate e u g) = auraQueue g @ replicate 0 (SetAura 0)"
      by (simp add: applyAuraUpdate_def)
    then show ?thesis by (rule that)
  next
    case (EagerAura n)
    then have "auraQueue (applyAuraUpdate e u g) = auraQueue g @ replicate 0 (SetAura 0)"
      by (simp add: applyAuraUpdate_def)
    then show ?thesis by (rule that)
  next
    case (IncAura flow)
    show ?thesis
    proof (cases "10 \<le> auraCount g + 1 \<and> \<not> flow")
      case True
      then have "auraQueue (applyAuraUpdate e u g) = auraQueue g @ replicate 1 (SetAura 0)"
        using IncAura by (simp add: applyAuraUpdate_def activateFlowState_InRender Let_def)
      then show ?thesis by (rule that)
    next
      case False
      then have "auraQueue (applyAuraUpdate e u g) = auraQueue g @ replicate 0 (SetAura 0)"
        using IncAura by (auto simp add: applyAuraUpdate_def Let_def)
      then show ?thesis by (rule that)
    qed
  qed
  obtain m where m: "auraQueue (drainAura e us (applyAuraUpdate e u g)) =
      auraQueue (applyAuraUpdate e u g) @ replicate m (SetAura 0)"
    using Cons.IH by blast
  have "auraQueue (drainAura e (u # us) g) = auraQueue g @ replicate (k + m) (SetAura 0)"
    by (simp add: m k replicate_add)
  then show ?case by blast
qed

text \<open>The updaters of one frame, all issued by a closure whose \<open>isFlowState\<close> is false.\<close>

lemma drainAura_incs:
  "\<exists>m. auraQueue (drainAura e (replicate k (IncAura False)) g) = auraQueue g @ replicate m (SetAura 0) \<and>
       (0 < m \<longleftrightarrow> 0 < k \<and> 10 \<le> auraCount g + int k) \<and>
       auraCount (drainAura e (replicate k (IncAura False)) g) = auraCount g + int k \<and>
       isFlowState (drainAura e (replicate k (IncAura False)) g) = (isFlowState g \<or> 0 < m) \<and>
       flowStateTimer (drainAura e (replicate k (IncAura False)) g) =
         (if 0 < m then Some (clock g + FLOW_STATE_DURATION) else flowStateTimer g) \<and>
       shakeTimer (drainAura e (replicate k (IncAura False)) g) =
         (if 0 < m then Some (clock g + 500) else shakeTimer g)"
proof (induction k arbitrary: g)
  case 0
  show ?case by (rule exI [of _ 0]) simp
next
  case (Suc k)
  let ?g1 = "applyAuraUpdate e (IncAura False) g"
  let ?a = "10 \<le> auraCount g + 1"
  have q1: "auraQueue ?g1 = auraQueue g @ (if ?a then [SetAura 0] else [])"
    and c1: "auraCount ?g1 = auraCount g + 1"
    and f1: "isFlowState ?g1 = (isFlowState g \<or> ?a)"
    and t1: "flowStateTimer ?g1 = (if ?a then Some (clock g + FLOW_STATE_DURATION) else flowStateTimer g)"
    and h1: "shakeTimer ?g1 = (if ?a then Some (clock g + 500) else shakeTimer g)"
    and k1: "clock ?g1 = clock g"
    by (simp_all add: applyAuraUpdate_def activateFlowState_fields activateFlowState_InRender Let_def)
  obtain m where
    qm: "auraQueue (drainAura e (replicate k (IncAura False)) ?g1) = auraQueue ?g1 @ replicate m (SetAura 0)"
    and im: "0 < m \<longleftrightarrow> 0 < k \<and> 10 \<le> auraCount ?g1 + int k"
    and cm: "auraCount (drainAura e (replicate k (IncAura False)) ?g1) = auraCount ?g1 + int k"
    and fm: "isFlowState (drainAura e (replicate k (IncAura False)) ?g1) = (isFlowState ?g1 \<or> 0 < m)"
    and tm: "flowStateTimer (drainAura e (replicate k (IncAura False)) ?g1) =
         (if 0 < m then Some (clock ?g1 + FLOW_STATE_DURATION) else flowStateTimer ?g1)"
    and hm: "shakeTimer (drainAura e (replicate k (IncAura False)) ?g1) =
         (if 0 < m then Some (clock ?g1 + 500) else shakeTimer ?g1)"
    using Suc.IH [of ?g1] by blast
  show ?case
  proof (cases ?a)
    case True
    have "auraQueue (drainAura e (replicate (Suc k) (IncAura False)) g) =
            auraQueue g @ replicate (Suc m) (SetAura 0)"
      using True by (simp add: qm q1 del: applyAuraUpdate_def)
    then show ?thesis
      using True im by (intro exI [of _ "Suc m"]) (auto simp add: cm c1 fm f1 tm t1 hm h1 k1)
  next
    case False
    have "auraQueue (drainAura e (replicate (Suc k) (IncAura False)) g) =
            auraQueue g @ replicate m (SetAura 0)"
      using False by (simp add: qm q1)
    then show ?thesis
      using False im by (intro exI [of _ m]) (auto simp add: cm c1 fm f1 tm t1 hm h1 k1)
  qed
qed

lemma flushAura_static:
  "gameState (flushAura e g) = gameState g \<and>
   effectDep (flushAura e g) = effectDep g \<and>
   pendingFrame (flushAura e g) = pendingFrame g \<and>
   obstacles (flushAura e g) = obstacles g \<and>
   speed (flushAura e g) = speed g \<and>
   score (flushAura e g) = score g \<and>
   playerLane (flushAura e g) = playerLane g \<and>
   highScore (flushAura e g) = highScore g \<and>
   gameOverText (flushAura e g) = gameOverText g \<and>
   storage (flushAura e g) = storage g \<and>
   setItemLog (flushAura e g) = setItemLog g \<and>
   clock (flushAura e g) = clock g \<and>
   lanes (flushAura e g) = lanes g \<and>
   scheduled (flushAura e g) = scheduled g \<and>
   lastRender (flushAura e g) = lastRender g"
proof -
  let ?g1 = "drainAura e (auraQueue g) (g\<lparr>auraQueue := []\<rparr>)"
  show ?thesis
    using drainAura_static [of e "auraQueue ?g1" "?g1\<lparr>auraQueue := []\<rparr>"]
      drainAura_static [of e "auraQueue g" "g\<lparr>auraQueue := []\<rparr>"]
    by (simp add: flushAura_def Let_def)
qed

text \<open>A render leaves the queue empty.\<close>

lemma flushAura_queue: "auraQueue (flushAura e g) = []"
proof -
  let ?g1 = "drainAura e (auraQueue g) (g\<lparr>auraQueue := []\<rparr>)"
  obtain m where "auraQueue ?g1 = auraQueue (g\<lparr>auraQueue := []\<rparr>) @ replicate m (SetAura 0)"
    using drainAura_queue by blast
  then have "flushAura e g = drainAura e (replicate m (SetAura 0)) (?g1\<lparr>auraQueue := []\<rparr>)"
    by (simp add: flushAura_def Let_def)
  then show ?thesis by (simp add: drainAura_sets)
qed

lemma flushAura_sets:
  assumes "auraQueue g = replicate m (SetAura n)"
  shows "flushAura e g = (if m = 0 then g else g\<lparr>auraCount := n, auraQueue := []\<rparr>)"
proof (cases "m = 0")
  case True
  then have "auraQueue g = []" using assms by simp
  then have "g\<lparr>auraQueue := []\<rparr> = g" by (cases g) simp
  then show ?thesis using True assms by (simp add: flushAura_def Let_def)
next
  case False
  then show ?thesis using assms by (simp add: flushAura_def Let_def drainAura_sets)
qed

lemma flushAura_Nil: "auraQueue g = [] \<Longrightarrow> flushAura e g = g"
  using flushAura_sets [of g 0 0 e] by simp

lemma flushAura_incs:
  assumes "auraQueue g = replicate k (IncAura False)"
  shows "auraQueue (flushAura e g) = [] \<and>
         auraCount (flushAura e g) =
           (if 0 < k \<and> 10 \<le> auraCount g + int k then 0 else auraCount g + int k) \<and>
         isFlowState (flushAura e g) = (isFlowState g \<or> (0 < k \<and> 10 \<le> auraCount g + int k)) \<and>
         flowStateTimer (flushAura e g) =
           (if 0 < k \<and> 10 \<le> auraCount g + int k then Some (clock g + FLOW_STATE_DURATION)
            else flowStateTimer g) \<and>
         shakeTimer (flushAura e g) =
           (if 0 < k \<and> 10 \<le> auraCount g + int k then Some (clock g + 500) else shakeTimer g)"
proof -
  let ?g0 = "g\<lparr>auraQueue := []\<rparr>"
  let ?g1 = "drainAura e (replicate k (IncAura False)) ?g0"
  obtain m where
    qm: "auraQueue ?g1 = auraQueue ?g0 @ replicate m (SetAura 0)"
    and im: "0 < m \<longleftrightarrow> 0 < k \<and> 10 \<le> auraCount ?g0 + int k"
    and cm: "auraCount ?g1 = auraCount ?g0 + int k"
    and fm: "isFlowState ?g1 = (isFlowState ?g0 \<or> 0 < m)"
    and tm: "flowStateTimer ?g1 = (if 0 < m then Some (clock ?g0 + FLOW_STATE_DURATION) else flowStateTimer ?g0)"
    and hm: "shakeTimer ?g1 = (if 0 < m then Some (clock ?g0 + 500) else shakeTimer ?g0)"
    using drainAura_incs [of e k ?g0] by blast
  have fl: "flushAura e g = drainAura e (replicate m (SetAura 0)) (?g1\<lparr>auraQueue := []\<rparr>)"
    using assms qm by (simp add: flushAura_def Let_def)
  show ?thesis
    using im by (auto simp add: fl drainAura_sets cm fm tm hm)
qed

text \<open>
  The queue that the updater leaves when React has run it at the call and it has turned
  power mode on: the count of the \<open>EagerAura\<close> stands.
\<close>

lemma flushAura_eager:
  assumes "auraQueue g = [SetAura 0, EagerAura n]"
  shows "flushAura e g = g\<lparr>auraQueue := [], auraCount := n\<rparr>"
  using assms by (simp add: flushAura_def applyAuraUpdate_def Let_def)

subsection \<open>Rendering: what follows an event\<close>

lemma runEffect_fields:
  "auraCount (runEffect g) = auraCount g"
  "auraQueue (runEffect g) = auraQueue g"
  "gameState (runEffect g) = gameState g"
  "playerLane (runEffect g) = playerLane g"
  "isFlowState (runEffect g) = isFlowState g"
  "isShaking (runEffect g) = isShaking g"
  "gameOverText (runEffect g) = gameOverText g"
  "effectDep (runEffect g) = gameState g"
  "score (runEffect g) = score g"
  "highScore (runEffect g) = highScore g"
  "storage (runEffect g) = storage g"
  "setItemLog (runEffect g) = setItemLog g"
  "obstacles (runEffect g) = obstacles g"
  "speed (runEffect g) = speed g"
  "clock (runEffect g) = clock g"
  "flowStateTimer (runEffect g) = flowStateTimer g"
  "shakeTimer (runEffect g) = shakeTimer g"
  "lanes (runEffect g) = lanes g"
  "scheduled (runEffect g) = scheduled g"
  "lastRender (runEffect g) = lastRender g"
  "pendingFrame (runEffect g) =
     (if gameState g = effectDep g then pendingFrame g
      else if gameState g = PLAYING then Some (render g) else None)"
  by (simp_all add: runEffect_def cancelAnimationFrame_def requestAnimationFrame_def render_def Let_def)

lemma hooksOf_runEffect: "hooksOf (runEffect g) = hooksOf g"
  by (simp add: hooksOf_def runEffect_fields)

lemma commit_none: "\<not> scheduled g \<Longrightarrow> commit e g = g"
  by (simp add: commit_def)

text \<open>A render that changes the state is committed; one that changes nothing is dropped.\<close>

lemma commit_render:
  "scheduled g \<Longrightarrow> hooksOf (flushAura e g) \<noteq> lastRender g \<Longrightarrow>
   commit e g =
     (runEffect ((flushAura e g)\<lparr>lanes := True, lastRender := hooksOf (flushAura e g)\<rparr>))\<lparr>scheduled := False\<rparr>"
  using flushAura_static [of e g] by (simp add: commit_def Let_def)

lemma commit_drop:
  "scheduled g \<Longrightarrow> hooksOf (flushAura e g) = lastRender g \<Longrightarrow>
   commit e g = (flushAura e g)\<lparr>lanes := False, scheduled := False\<rparr>"
  using flushAura_static [of e g] by (simp add: commit_def Let_def)

lemma score_changed:
  "score g \<noteq> h_score (lastRender g) \<Longrightarrow> hooksOf (flushAura e g) \<noteq> lastRender g"
proof
  assume a: "score g \<noteq> h_score (lastRender g)" and b: "hooksOf (flushAura e g) = lastRender g"
  have "h_score (hooksOf (flushAura e g)) = score g"
    using flushAura_static [of e g] by (simp add: hooksOf_def)
  then show False using a b by simp
qed

text \<open>The fields a render does not touch, whatever it does.\<close>

lemma commit_static:
  "gameState (commit e g) = gameState g"
  "playerLane (commit e g) = playerLane g"
  "score (commit e g) = score g"
  "highScore (commit e g) = highScore g"
  "storage (commit e g) = storage g"
  "setItemLog (commit e g) = setItemLog g"
  "obstacles (commit e g) = obstacles g"
  "speed (commit e g) = speed g"
  "clock (commit e g) = clock g"
  "\<not> scheduled (commit e g)"
  using flushAura_static [of e g] by (simp_all add: commit_def runEffect_fields Let_def)

text \<open>With nothing in the queue, a render leaves the count, power mode and the timers alone.\<close>

lemma commit_quiet:
  assumes "auraQueue g = []"
  shows "auraCount (commit e g) = auraCount g"
    and "isFlowState (commit e g) = isFlowState g"
    and "isShaking (commit e g) = isShaking g"
    and "flowStateTimer (commit e g) = flowStateTimer g"
    and "shakeTimer (commit e g) = shakeTimer g"
    and "auraQueue (commit e g) = []"
  using assms by (simp_all add: commit_def flushAura_Nil runEffect_fields Let_def)

subsection \<open>The invariant\<close>

lemma loopInv_init: "loopInv (init saved)"
  by (simp add: loopInv_def init_def hooksOf_def)

text \<open>
  What a handler has to leave behind for the invariant to hold after the render: if it
  scheduled no render, nothing is waiting and the state is that of the last render; the
  effect last ran for the \<open>gameState\<close> of the last render; a frame that stays pending is
  one of the loop; and a run that starts does so from score 0, the middle lane and no
  power mode.
\<close>

lemma commit_loopInv:
  assumes acc: "\<not> scheduled h \<Longrightarrow> auraQueue h = [] \<and> lastRender h = hooksOf h"
    and dep: "effectDep h = h_gameState (lastRender h)"
    and lane: "playerLane h \<in> {0, 1, 2}"
    and same: "\<And>v. pendingFrame h = Some v \<Longrightarrow> gameState h = effectDep h \<Longrightarrow>
        v_gameState v = PLAYING \<and> \<not> v_isFlowState v \<and> v_score v = 0 \<and> v_playerLane v = 1 \<and>
        v_highScore v = highScore h \<and> gameState h = PLAYING"
    and fresh: "gameState h \<noteq> effectDep h \<Longrightarrow> gameState h = PLAYING \<Longrightarrow>
        \<not> isFlowState (flushAura e h) \<and> score h = 0 \<and> playerLane h = 1"
  shows "loopInv (commit e h)"
proof (cases "scheduled h")
  case False
  have "effectDep h = gameState h"
    using acc [OF False] dep by (simp add: hooksOf_def)
  then show ?thesis
    using False acc [OF False] lane same by (simp add: commit_none loopInv_def)
next
  case True
  let ?g1 = "flushAura e h"
  note st = flushAura_static [of e h]
  show ?thesis
  proof (cases "hooksOf ?g1 = lastRender h")
    case drop: True
    have g: "gameState h = effectDep h"
    proof -
      have "h_gameState (hooksOf ?g1) = gameState h" using st by (simp add: hooksOf_def)
      then show ?thesis using drop dep by simp
    qed
    have "hooksOf (?g1\<lparr>lanes := False, scheduled := False\<rparr>) = hooksOf ?g1"
      by (simp add: hooksOf_def)
    then show ?thesis
      using st lane same g drop
      by (simp add: commit_drop [OF True drop] loopInv_def flushAura_queue)
  next
    case render: False
    let ?g2 = "?g1\<lparr>lanes := True, lastRender := hooksOf ?g1\<rparr>"
    have h2: "hooksOf ((runEffect ?g2)\<lparr>scheduled := False\<rparr>) = hooksOf ?g1"
      by (simp add: hooksOf_def runEffect_fields)
    have v: "v_gameState (render ?g2) = gameState h" "v_isFlowState (render ?g2) = isFlowState ?g1"
      "v_score (render ?g2) = score h" "v_playerLane (render ?g2) = playerLane h"
      "v_highScore (render ?g2) = highScore h"
      using st by (simp_all add: render_def)
    show ?thesis
      using st lane same fresh v
      by (simp add: commit_render [OF True render] loopInv_def runEffect_fields flushAura_queue h2)
  qed
qed

lemma loopInv_drawn: "loopInv (g\<lparr>drawn := n\<rparr>) = loopInv g"
  by (simp add: loopInv_def hooksOf_def)

lemma loopInv_clock: "loopInv (g\<lparr>clock := n\<rparr>) = loopInv g"
  by (simp add: loopInv_def hooksOf_def)

lemma startGame_fields:
  "gameState (startGame e g) = PLAYING"
  "score (startGame e g) = 0"
  "isFlowState (startGame e g) = False"
  "playerLane (startGame e g) = 1"
  "effectDep (startGame e g) = effectDep g"
  "lastRender (startGame e g) = lastRender g"
  "pendingFrame (startGame e g) = pendingFrame g"
  "highScore (startGame e g) = highScore g"
  "storage (startGame e g) = storage g"
  "setItemLog (startGame e g) = setItemLog g"
  "auraCount (startGame e g) = auraCount g"
  "clock (startGame e g) = clock g"
  "flowStateTimer (startGame e g) = flowStateTimer g"
  "shakeTimer (startGame e g) = shakeTimer g"
  "isShaking (startGame e g) = isShaking g"
  "gameOverText (startGame e g) = gameOverText g"
  "speed (startGame e g) = INITIAL_SPEED"
  "obstacles (startGame e g) = []"
  by (simp_all add: startGame_def setters Let_def)

lemma startGame_queue:
  "auraQueue (startGame e g) = auraQueue g \<or> auraQueue (startGame e g) = auraQueue g @ [SetAura 0]"
  by (simp add: startGame_def setters Let_def)

lemma startGame_none:
  "\<not> scheduled (startGame e g) \<Longrightarrow>
   auraQueue (startGame e g) = auraQueue g \<and> hooksOf (startGame e g) = hooksOf g"
  by (simp add: startGame_def setters Let_def hooksOf_def split: if_splits)

lemma loopInv_Start:
  assumes "loopInv g"
  shows "loopInv (step e Start g)"
proof -
  let ?g = "g\<lparr>drawn := 0\<rparr>"
  let ?h = "startGame e ?g"
  have i: "loopInv ?g" using assms by (simp add: loopInv_drawn)
  have q: "auraQueue ?h = replicate 0 (SetAura 0) \<or> auraQueue ?h = replicate 1 (SetAura 0)"
    using startGame_queue [of e ?g] i by (simp add: loopInv_def)
  have f: "\<not> isFlowState (flushAura e ?h)"
  proof -
    from q show ?thesis
    proof
      assume a: "auraQueue ?h = replicate 0 (SetAura 0)"
      show ?thesis by (simp add: flushAura_sets [OF a] startGame_fields)
    next
      assume a: "auraQueue ?h = replicate 1 (SetAura 0)"
      show ?thesis by (simp add: flushAura_sets [OF a] startGame_fields)
    qed
  qed
  have "loopInv (commit e ?h)"
  proof (rule commit_loopInv)
    show "auraQueue ?h = [] \<and> lastRender ?h = hooksOf ?h" if "\<not> scheduled ?h"
      using startGame_none [OF that] i by (simp add: loopInv_def startGame_fields)
    show "effectDep ?h = h_gameState (lastRender ?h)"
      using i by (simp add: startGame_fields loopInv_def hooksOf_def)
    show "playerLane ?h \<in> {0, 1, 2}" by (simp add: startGame_fields)
    show "v_gameState v = PLAYING \<and> \<not> v_isFlowState v \<and> v_score v = 0 \<and> v_playerLane v = 1 \<and>
        v_highScore v = highScore ?h \<and> gameState ?h = PLAYING"
      if "pendingFrame ?h = Some v" for v
      using that i by (simp add: startGame_fields loopInv_def)
    show "\<not> isFlowState (flushAura e ?h) \<and> score ?h = 0 \<and> playerLane ?h = 1"
      using f by (simp add: startGame_fields)
  qed
  then show ?thesis by (simp add: step_def handle_def)
qed

text \<open>A handler that leaves the queue, the effect and the frame alone and starts no run.\<close>

lemma commit_loopInv_plain:
  assumes i: "loopInv g"
    and acc: "\<not> scheduled h \<Longrightarrow> hooksOf h = hooksOf g"
    and st: "auraQueue h = auraQueue g" "lastRender h = lastRender g" "effectDep h = effectDep g"
      "pendingFrame h = pendingFrame g" "highScore h = highScore g"
    and lane: "playerLane h \<in> {0, 1, 2}"
    and gs: "gameState h = gameState g \<or> gameState h \<noteq> PLAYING"
  shows "loopInv (commit e h)"
proof (rule commit_loopInv)
  show "auraQueue h = [] \<and> lastRender h = hooksOf h" if "\<not> scheduled h"
    using acc [OF that] i st by (simp add: loopInv_def)
  show "effectDep h = h_gameState (lastRender h)"
    using i st by (simp add: loopInv_def hooksOf_def)
  show "playerLane h \<in> {0, 1, 2}" by (rule lane)
  show "v_gameState v = PLAYING \<and> \<not> v_isFlowState v \<and> v_score v = 0 \<and> v_playerLane v = 1 \<and>
        v_highScore v = highScore h \<and> gameState h = PLAYING"
    if "pendingFrame h = Some v" "gameState h = effectDep h" for v
    using that i st by (simp add: loopInv_def)
  show "\<not> isFlowState (flushAura e h) \<and> score h = 0 \<and> playerLane h = 1"
    if "gameState h \<noteq> effectDep h" "gameState h = PLAYING"
    using that i st gs by (simp add: loopInv_def)
qed

lemma loopInv_Menu:
  assumes "loopInv g"
  shows "loopInv (step e Menu g)"
proof -
  have i: "loopInv (g\<lparr>drawn := 0\<rparr>)" using assms by (simp add: loopInv_drawn)
  have "loopInv (commit e (setGameState MENU (g\<lparr>drawn := 0\<rparr>)))"
    using i by (intro commit_loopInv_plain [OF i])
      (auto simp add: setters hooksOf_def loopInv_def split: if_splits)
  then show ?thesis by (simp add: step_def handle_def)
qed

lemma loopInv_KeyDown:
  assumes "loopInv g"
  shows "loopInv (step e (KeyDown key) g)"
proof -
  let ?g = "g\<lparr>drawn := 0\<rparr>"
  have i: "loopInv ?g" using assms by (simp add: loopInv_drawn)
  have "loopInv (commit e (handleKeyDown (render ?g) key ?g))"
    using i by (intro commit_loopInv_plain [OF i])
      (auto simp add: handleKeyDown_def setters hooksOf_def loopInv_def LANES_def Let_def split: if_splits)
  then show ?thesis by (simp add: step_def handle_def)
qed

lemma loopInv_TouchStart:
  assumes "loopInv g"
  shows "loopInv (step e (TouchStart x) g)"
proof -
  let ?g = "g\<lparr>drawn := 0\<rparr>"
  have i: "loopInv ?g" using assms by (simp add: loopInv_drawn)
  have "loopInv (commit e (handleTouchStart (render ?g) e x ?g))"
    using i by (intro commit_loopInv_plain [OF i])
      (auto simp add: handleTouchStart_def setters hooksOf_def loopInv_def LANES_def Let_def split: if_splits)
  then show ?thesis by (simp add: step_def handle_def)
qed

lemma loopInv_fireFlowStateTimer: "loopInv g \<Longrightarrow> loopInv (commit e (fireFlowStateTimer g))"
  by (rule commit_loopInv_plain [of g])
    (auto simp add: fireFlowStateTimer_def setters hooksOf_def loopInv_def split: option.splits if_splits)

lemma loopInv_fireShakeTimer: "loopInv g \<Longrightarrow> loopInv (commit e (fireShakeTimer g))"
  by (rule commit_loopInv_plain [of g])
    (auto simp add: fireShakeTimer_def setters hooksOf_def loopInv_def split: option.splits if_splits)

lemma step_Elapse:
  "step e (Elapse d) g =
     (if (case shakeTimer g of
            None \<Rightarrow> False
          | Some s \<Rightarrow> (case flowStateTimer g of None \<Rightarrow> False | Some f \<Rightarrow> s < f))
      then commit e (fireFlowStateTimer (commit e (fireShakeTimer (g\<lparr>drawn := 0, clock := clock g + d\<rparr>))))
      else commit e (fireShakeTimer (commit e (fireFlowStateTimer (g\<lparr>drawn := 0, clock := clock g + d\<rparr>)))))"
  by (simp add: step_def handle_def elapse_def Let_def split: option.splits)

lemma loopInv_Elapse:
  assumes "loopInv g"
  shows "loopInv (step e (Elapse d) g)"
proof -
  have i: "loopInv (g\<lparr>drawn := 0, clock := clock g + d\<rparr>)"
    using assms by (simp add: loopInv_clock loopInv_drawn)
  show ?thesis
    by (simp add: step_Elapse loopInv_fireFlowStateTimer loopInv_fireShakeTimer i)
qed

lemma step_Frame_None: "pendingFrame g = None \<Longrightarrow> step e Frame g = commit e (g\<lparr>drawn := 0\<rparr>)"
  by (simp add: step_def handle_def)

lemma step_Frame_Some:
  "pendingFrame g = Some v \<Longrightarrow>
   step e Frame g = commit e (update v e (g\<lparr>drawn := 0, pendingFrame := None\<rparr>))"
  by (simp add: step_def handle_def)

lemma loopInv_Frame:
  assumes "loopInv g"
  shows "loopInv (step e Frame g)"
proof (cases "pendingFrame g")
  case None
  have "commit e (g\<lparr>drawn := 0\<rparr>) = g\<lparr>drawn := 0\<rparr>"
    using assms by (simp add: commit_none loopInv_def)
  then show ?thesis
    using assms by (simp add: step_Frame_None [OF None] loopInv_drawn)
next
  case (Some v)
  let ?g = "g\<lparr>drawn := 0, pendingFrame := None\<rparr>"
  let ?u = "update v e ?g"
  have v: "v_gameState v = PLAYING" "\<not> v_isFlowState v" "v_score v = 0" "v_playerLane v = 1"
    "v_highScore v = highScore g"
    and gs: "gameState g = PLAYING" "effectDep g = PLAYING" "lastRender g = hooksOf g"
    using assms Some by (auto simp add: loopInv_def)
  note st = update_static [OF v(1), of e ?g]
  have gu: "gameState ?u = PLAYING \<or> gameState ?u = GAME_OVER"
    using v gs by (simp add: update_gameState)
  have hs: "gameState ?u = PLAYING \<Longrightarrow> highScore ?u = v_highScore v"
    using v gs by (auto simp add: update_gameState update_highScore split: if_splits)
  have "loopInv (commit e ?u)"
  proof (rule commit_loopInv)
    show "auraQueue ?u = [] \<and> lastRender ?u = hooksOf ?u" if "\<not> scheduled ?u"
      using that st by simp
    show "effectDep ?u = h_gameState (lastRender ?u)"
      using st gs by (simp add: hooksOf_def)
    show "playerLane ?u \<in> {0, 1, 2}"
      using st assms by (simp add: loopInv_def)
    show "v_gameState w = PLAYING \<and> \<not> v_isFlowState w \<and> v_score w = 0 \<and> v_playerLane w = 1 \<and>
        v_highScore w = highScore ?u \<and> gameState ?u = PLAYING"
      if "pendingFrame ?u = Some w" "gameState ?u = effectDep ?u" for w
      using that st gs v hs by simp
    show "\<not> isFlowState (flushAura e ?u) \<and> score ?u = 0 \<and> playerLane ?u = 1"
      if "gameState ?u \<noteq> effectDep ?u" "gameState ?u = PLAYING"
      using that st gs by simp
  qed
  then show ?thesis by (simp add: step_Frame_Some [OF Some])
qed

lemma loopInv_step: "loopInv g \<Longrightarrow> loopInv (step e c g)"
  by (cases c) (simp_all add: loopInv_Start loopInv_Menu loopInv_KeyDown loopInv_TouchStart loopInv_Frame loopInv_Elapse)

lemma reachable_inv: "reachable g \<Longrightarrow> loopInv g"
  by (induction rule: reachable.induct) (simp_all add: loopInv_init loopInv_step)

subsection \<open>The obstacles of a frame\<close>

lemma beforeFilter_obstacles:
  "obstacles (beforeFilter e g) =
     obstacles g @
       (if e_random e (drawn g) < (2 / 100) * ((speed g + SPEED_INCREMENT) / 5)
        then [\<lparr>o_id = e_dateNow e + e_random e (drawn g + 3),
               o_lane = \<lfloor>e_random e (drawn g + 1) * of_int LANES\<rfloor>,
               o_y = - 100,
               o_type = (if e_random e (drawn g + 2) > 8 / 10 then AURA else BLOCK)\<rparr>]
        else [])"
  by (simp add: beforeFilter_def spawnObstacle_def mathRandom_def Let_def numeral_3_eq_3 numeral_2_eq_2)

lemma beforeFilter_pendingFrame:
  "obstacles (beforeFilter e (g\<lparr>pendingFrame := x\<rparr>)) = obstacles (beforeFilter e g)"
  "speed (beforeFilter e (g\<lparr>pendingFrame := x\<rparr>)) = speed (beforeFilter e g)"
  by (simp_all add: beforeFilter_obstacles beforeFilter_static)

lemma struck_pendingFrame: "struck v e (g\<lparr>pendingFrame := x\<rparr>) = struck v e g"
  by (simp add: struck_def beforeFilter_pendingFrame)

subsection \<open>One frame of the running game\<close>

text \<open>A frame always changes the score, so the render that follows it is committed.\<close>

lemma step_Frame_render:
  assumes i: "loopInv g" and p: "pendingFrame g = Some v"
  shows "step e Frame g =
     (runEffect ((flushAura e (update v e (g\<lparr>drawn := 0, pendingFrame := None\<rparr>)))
        \<lparr>lanes := True,
         lastRender := hooksOf (flushAura e (update v e (g\<lparr>drawn := 0, pendingFrame := None\<rparr>)))\<rparr>))
     \<lparr>scheduled := False\<rparr>"
proof -
  let ?u = "update v e (g\<lparr>drawn := 0, pendingFrame := None\<rparr>)"
  have v: "v_gameState v = PLAYING" "\<not> v_isFlowState v"
    and l: "lastRender g = hooksOf g"
    using i p by (auto simp add: loopInv_def)
  have s: "scheduled ?u" and r: "lastRender ?u = hooksOf g"
    using update_static [OF v(1), of e "g\<lparr>drawn := 0, pendingFrame := None\<rparr>"] l by simp_all
  have "score ?u \<noteq> h_score (lastRender ?u)"
    using v by (simp add: r update_score hooksOf_def)
  then have "hooksOf (flushAura e ?u) \<noteq> lastRender ?u" by (rule score_changed)
  then show ?thesis
    by (simp add: step_Frame_Some [OF p] commit_render [OF s])
qed

text \<open>The frame, when React has work marked on the component.\<close>

lemma frame_summary:
  assumes i: "loopInv g" and p: "pendingFrame g = Some v" and l: "lanes g"
  shows "gameState (step e Frame g) = (if blockHit e g then GAME_OVER else PLAYING)"
    and "pendingFrame (step e Frame g) = (if blockHit e g then None else Some v)"
    and "auraCount (step e Frame g) = (if activates e g then 0 else auraCount g + int (auraHits e g))"
    and "isFlowState (step e Frame g) = (isFlowState g \<or> activates e g)"
    and "flowStateTimer (step e Frame g) =
           (if activates e g then Some (clock g + FLOW_STATE_DURATION)
            else if blockHit e g then None else flowStateTimer g)"
    and "shakeTimer (step e Frame g) =
           (if activates e g then Some (clock g + 500)
            else if 0 < auraHits e g then Some (clock g + 100) else shakeTimer g)"
    and "score (step e Frame g) = score g + 1"
    and "speed (step e Frame g) = speed g + SPEED_INCREMENT"
    and "clock (step e Frame g) = clock g"
    and "playerLane (step e Frame g) = playerLane g"
    and "obstacles (step e Frame g) =
           map (advance (speed g + SPEED_INCREMENT))
             (filter (\<lambda>obs. \<not> hits v e (advance (speed g + SPEED_INCREMENT) obs) \<and>
                            onScreen e (advance (speed g + SPEED_INCREMENT) obs))
                (obstacles (beforeFilter e (g\<lparr>drawn := 0\<rparr>))))"
    and "lanes (step e Frame g)"
proof -
  let ?g' = "g\<lparr>drawn := 0, pendingFrame := None\<rparr>"
  let ?u = "update v e ?g'"
  have v: "v_gameState v = PLAYING" "\<not> v_isFlowState v"
    and gs: "gameState g = PLAYING" "effectDep g = PLAYING" "auraQueue g = []"
    using i p by (auto simp add: loopInv_def)
  have l': "lanes ?g'" using l by simp
  have sn: "struck v e ?g' = struckNow e g"
    using p by (simp add: struckNow_def struck_pendingFrame)
  have q: "auraQueue ?u = replicate (auraHits e g) (IncAura False)"
    using v gs by (simp add: update_auraQueue [OF v(1) l'] sn auraHits_def)
  have st: "auraCount ?u = auraCount g" "effectDep ?u = PLAYING"
    "clock ?u = clock g" "playerLane ?u = playerLane g" "pendingFrame ?u = Some v"
    "speed ?u = speed g + SPEED_INCREMENT"
    using update_static [OF v(1), of e ?g'] gs by simp_all
  have fu: "isFlowState ?u = isFlowState g"
    by (simp add: update_isFlowState [OF v(1) l'])
  have gu: "gameState ?u = (if blockHit e g then GAME_OVER else PLAYING)"
    using v gs by (simp add: update_gameState sn blockHit_def)
  have tu: "flowStateTimer ?u = (if blockHit e g then None else flowStateTimer g)"
    using v by (simp add: update_flowStateTimer [OF v(1) l'] sn blockHit_def)
  have hu: "shakeTimer ?u = (if 0 < auraHits e g then Some (clock g + 100) else shakeTimer g)"
    using v by (simp add: update_shakeTimer [OF v(1) l' v(2)] sn auraHits_def filter_empty_conv)
  have su: "score ?u = score g + 1"
    using v by (simp add: update_score)
  have ou: "obstacles ?u =
           map (advance (speed g + SPEED_INCREMENT))
             (filter (\<lambda>obs. \<not> hits v e (advance (speed g + SPEED_INCREMENT) obs) \<and>
                            onScreen e (advance (speed g + SPEED_INCREMENT) obs))
                (obstacles (beforeFilter e (g\<lparr>drawn := 0\<rparr>))))"
    using v by (simp add: update_obstacles beforeFilter_pendingFrame)
  note fl = flushAura_incs [OF q, of e] flushAura_static [of e ?u]
  note stp = step_Frame_render [OF i p, of e]
  show "gameState (step e Frame g) = (if blockHit e g then GAME_OVER else PLAYING)"
    using fl by (simp add: stp runEffect_fields gu)
  show "pendingFrame (step e Frame g) = (if blockHit e g then None else Some v)"
    using fl by (simp add: stp runEffect_fields gu st)
  show "auraCount (step e Frame g) = (if activates e g then 0 else auraCount g + int (auraHits e g))"
    using fl by (simp add: stp runEffect_fields st activates_def)
  show "isFlowState (step e Frame g) = (isFlowState g \<or> activates e g)"
    using fl by (simp add: stp runEffect_fields st fu activates_def)
  show "flowStateTimer (step e Frame g) =
           (if activates e g then Some (clock g + FLOW_STATE_DURATION)
            else if blockHit e g then None else flowStateTimer g)"
    using fl by (simp add: stp runEffect_fields st tu activates_def)
  show "shakeTimer (step e Frame g) =
           (if activates e g then Some (clock g + 500)
            else if 0 < auraHits e g then Some (clock g + 100) else shakeTimer g)"
    using fl by (simp add: stp runEffect_fields st hu activates_def)
  show "score (step e Frame g) = score g + 1"
    using fl by (simp add: stp runEffect_fields su)
  show "speed (step e Frame g) = speed g + SPEED_INCREMENT"
    using fl by (simp add: stp runEffect_fields st)
  show "clock (step e Frame g) = clock g"
    using fl by (simp add: stp runEffect_fields st)
  show "playerLane (step e Frame g) = playerLane g"
    using fl by (simp add: stp runEffect_fields st)
  show "obstacles (step e Frame g) =
           map (advance (speed g + SPEED_INCREMENT))
             (filter (\<lambda>obs. \<not> hits v e (advance (speed g + SPEED_INCREMENT) obs) \<and>
                            onScreen e (advance (speed g + SPEED_INCREMENT) obs))
                (obstacles (beforeFilter e (g\<lparr>drawn := 0\<rparr>))))"
    using fl by (simp add: stp runEffect_fields ou)
  show "lanes (step e Frame g)"
    by (simp add: stp runEffect_fields)
qed

text \<open>The stored high score over a frame, whether or not work is marked.\<close>

lemma frame_summary_store:
  assumes i: "loopInv g" and p: "pendingFrame g = Some v" and n: "\<not> js_gt 0 (v_highScore v)"
  shows "highScore (step e Frame g) = highScore g \<and> storage (step e Frame g) = storage g \<and>
         setItemLog (step e Frame g) = setItemLog g"
proof -
  let ?g' = "g\<lparr>drawn := 0, pendingFrame := None\<rparr>"
  let ?u = "update v e ?g'"
  have v: "v_gameState v = PLAYING" "v_score v = 0"
    using i p by (auto simp add: loopInv_def)
  have "highScore ?u = highScore g \<and> storage ?u = storage g \<and> setItemLog ?u = setItemLog g"
    using update_store [of v e ?g'] v n by simp
  then show ?thesis
    by (simp add: step_Frame_Some [OF p] commit_static)
qed

subsection \<open>The concrete runs\<close>

lemma floor_three_halves: "\<lfloor>(3::rat) / 2\<rfloor> = 1"
  by (rule floor_unique) simp_all

lemma struckNow_envAura:
  assumes "inRun g"
  shows "struckNow envAura g = [\<lparr>o_id = 0, o_lane = 1, o_y = - 100, o_type = AURA\<rparr>]"
  using assms
  by (simp add: inRun_def struckNow_def struck_def beforeFilter_obstacles beforeFilter_static
        envAura_def tinyWindow_def startView_def hits_def collides_def laneCenter_def advance_def
        LANES_def LANE_WIDTH_def PLAYER_SIZE_def OBSTACLE_SIZE_def SPEED_INCREMENT_def abs_if
        floor_three_halves)

lemma struckNow_envBlock:
  assumes "inRun g"
  shows "struckNow envBlock g = [\<lparr>o_id = 0, o_lane = 1, o_y = - 100, o_type = BLOCK\<rparr>]"
  using assms
  by (simp add: inRun_def struckNow_def struck_def beforeFilter_obstacles beforeFilter_static
        envBlock_def tinyWindow_def startView_def hits_def collides_def laneCenter_def advance_def
        LANES_def LANE_WIDTH_def PLAYER_SIZE_def OBSTACLE_SIZE_def SPEED_INCREMENT_def abs_if
        floor_three_halves)

lemma struckNow_envQuiet:
  assumes "inRun g"
  shows "struckNow envQuiet g = []"
  using assms
  by (simp add: inRun_def struckNow_def struck_def beforeFilter_obstacles beforeFilter_static
        envQuiet_def tinyWindow_def SPEED_INCREMENT_def)

lemma struckNow_envLeftBlock:
  assumes "inRun g"
  shows "struckNow envLeftBlock g = []"
  using assms
  by (simp add: inRun_def struckNow_def struck_def beforeFilter_obstacles beforeFilter_static
        envLeftBlock_def tinyWindow_def startView_def hits_def collides_def laneCenter_def advance_def
        LANES_def LANE_WIDTH_def PLAYER_SIZE_def OBSTACLE_SIZE_def SPEED_INCREMENT_def abs_if)

lemma started_eq:
  "started =
     (init None)\<lparr>gameState := PLAYING, lanes := True,
       lastRender := \<lparr>h_gameState = PLAYING, h_score = 0, h_highScore = Num 0, h_auraCount = 0,
         h_isFlowState = False, h_playerLane = 1, h_gameOverText = Some [], h_isShaking = False\<rparr>,
       effectDep := PLAYING, lastTime := 0, pendingFrame := Some startView\<rparr>"
  by (simp add: started_def step_def commit_def handle_def startGame_def setters runEffect_def
      cancelAnimationFrame_def requestAnimationFrame_def flushAura_def applyAuraUpdate_def
      render_def hooksOf_def init_def initialHighScore_def startView_def INITIAL_SPEED_def
      envQuiet_def tinyWindow_def Let_def)

lemma reachable_run: "reachable g \<Longrightarrow> reachable (run cs g)"
  by (induction cs arbitrary: g) (simp_all add: reachable_step)

lemma reachable_started: "reachable started"
  unfolding started_def by (intro reachable_step reachable_init)

lemma started_fields:
  "gameState started = PLAYING" "playerLane started = 1" "score started = 0"
  "auraCount started = 0" "speed started = 5" "\<not> isFlowState started"
  "flowStateTimer started = None" "shakeTimer started = None"
  by (simp_all add: started_eq init_def INITIAL_SPEED_def)

lemma running_started: "running started"
proof -
  have "loopInv started" using reachable_started by (rule reachable_inv)
  then show ?thesis
    by (simp add: running_def inRun_def) (simp add: started_eq init_def initialHighScore_def INITIAL_SPEED_def)
qed

lemma obstacles_envAura:
  assumes "running g"
  shows "obstacles (step envAura Frame g) = []"
proof -
  have i: "loopInv g" and p: "pendingFrame g = Some startView" and l: "lanes g"
    using assms by (simp_all add: running_def inRun_def)
  show ?thesis
    using assms
    by (simp add: frame_summary(11) [OF i p l] running_def inRun_def beforeFilter_obstacles
        envAura_def tinyWindow_def startView_def hits_def collides_def laneCenter_def advance_def
        LANES_def LANE_WIDTH_def PLAYER_SIZE_def OBSTACLE_SIZE_def SPEED_INCREMENT_def abs_if
        floor_three_halves)
qed

lemma obstacles_envBlock:
  assumes "running g"
  shows "obstacles (step envBlock Frame g) = []"
proof -
  have i: "loopInv g" and p: "pendingFrame g = Some startView" and l: "lanes g"
    using assms by (simp_all add: running_def inRun_def)
  show ?thesis
    using assms
    by (simp add: frame_summary(11) [OF i p l] running_def inRun_def beforeFilter_obstacles
        envBlock_def tinyWindow_def startView_def hits_def collides_def laneCenter_def advance_def
        LANES_def LANE_WIDTH_def PLAYER_SIZE_def OBSTACLE_SIZE_def SPEED_INCREMENT_def abs_if
        floor_three_halves)
qed

lemma obstacles_envQuiet:
  assumes "running g"
  shows "obstacles (step envQuiet Frame g) = []"
proof -
  have i: "loopInv g" and p: "pendingFrame g = Some startView" and l: "lanes g"
    using assms by (simp_all add: running_def inRun_def)
  show ?thesis
    using assms
    by (simp add: frame_summary(11) [OF i p l] running_def inRun_def beforeFilter_obstacles
        envQuiet_def tinyWindow_def SPEED_INCREMENT_def)
qed

lemma hits_envAura:
  assumes "inRun g"
  shows "auraHits envAura g = 1" and "\<not> blockHit envAura g"
  using struckNow_envAura [OF assms] by (simp_all add: auraHits_def blockHit_def)

lemma hits_envBlock:
  assumes "inRun g"
  shows "auraHits envBlock g = 0" and "blockHit envBlock g"
  using struckNow_envBlock [OF assms] by (simp_all add: auraHits_def blockHit_def)

lemma hits_envQuiet:
  assumes "inRun g"
  shows "auraHits envQuiet g = 0" and "\<not> blockHit envQuiet g"
  using struckNow_envQuiet [OF assms] by (simp_all add: auraHits_def blockHit_def)

lemma hits_envLeftBlock:
  assumes "inRun g"
  shows "auraHits envLeftBlock g = 0" and "\<not> blockHit envLeftBlock g"
  using struckNow_envLeftBlock [OF assms] by (simp_all add: auraHits_def blockHit_def)

text \<open>One frame in which the player picks up an aura, below the threshold.\<close>

lemma running_envAura:
  assumes r: "running g" and c: "auraCount g \<le> 8" and s: "speed g + 1 / 1000 \<le> 6"
  shows "running (step envAura Frame g)"
    and "auraCount (step envAura Frame g) = auraCount g + 1"
    and "score (step envAura Frame g) = score g + 1"
    and "speed (step envAura Frame g) = speed g + 1 / 1000"
    and "isFlowState (step envAura Frame g) = isFlowState g"
    and "flowStateTimer (step envAura Frame g) = flowStateTimer g"
    and "shakeTimer (step envAura Frame g) = Some 100"
    and "gameState (step envAura Frame g) = PLAYING"
    and "playerLane (step envAura Frame g) = playerLane g"
proof -
  have n: "inRun g" and i: "loopInv g" and p: "pendingFrame g = Some startView" and l: "lanes g"
    using r by (simp_all add: running_def inRun_def)
  have h: "\<not> js_gt 0 (v_highScore startView)"
    by (simp add: startView_def)
  have a: "\<not> activates envAura g"
    using c by (simp add: activates_def hits_envAura [OF n])
  note fs = frame_summary [OF i p l, of envAura] frame_summary_store [OF i p h, of envAura]
  show "running (step envAura Frame g)"
    using r s fs a loopInv_Frame [OF i, of envAura]
    by (simp add: running_def inRun_def hits_envAura [OF n] obstacles_envAura [OF r] SPEED_INCREMENT_def)
  show "auraCount (step envAura Frame g) = auraCount g + 1"
    using fs a by (simp add: hits_envAura [OF n])
  show "score (step envAura Frame g) = score g + 1"
    using fs by simp
  show "speed (step envAura Frame g) = speed g + 1 / 1000"
    using fs by (simp add: SPEED_INCREMENT_def)
  show "isFlowState (step envAura Frame g) = isFlowState g"
    using fs a by simp
  show "flowStateTimer (step envAura Frame g) = flowStateTimer g"
    using fs a by (simp add: hits_envAura [OF n])
  show "shakeTimer (step envAura Frame g) = Some 100"
    using fs a r by (simp add: hits_envAura [OF n] running_def inRun_def)
  show "gameState (step envAura Frame g) = PLAYING"
    using fs by (simp add: hits_envAura [OF n])
  show "playerLane (step envAura Frame g) = playerLane g"
    using fs by simp
qed

lemma collect_auras:
  "running g \<Longrightarrow> auraCount g + int n \<le> 9 \<Longrightarrow> speed g + of_nat n / 1000 \<le> 6 \<Longrightarrow>
   running (run (replicate n (envAura, Frame)) g) \<and>
   auraCount (run (replicate n (envAura, Frame)) g) = auraCount g + int n \<and>
   score (run (replicate n (envAura, Frame)) g) = score g + int n \<and>
   speed (run (replicate n (envAura, Frame)) g) = speed g + of_nat n / 1000 \<and>
   isFlowState (run (replicate n (envAura, Frame)) g) = isFlowState g \<and>
   flowStateTimer (run (replicate n (envAura, Frame)) g) = flowStateTimer g \<and>
   playerLane (run (replicate n (envAura, Frame)) g) = playerLane g"
proof (induction n arbitrary: g)
  case 0
  then show ?case by simp
next
  case (Suc n)
  have c: "auraCount g \<le> 8" and s: "speed g + 1 / 1000 \<le> 6"
    using Suc.prems by (simp_all add: field_simps)
  note st = running_envAura [OF Suc.prems(1) c s]
  have "auraCount (step envAura Frame g) + int n \<le> 9"
    and "speed (step envAura Frame g) + of_nat n / 1000 \<le> 6"
    using Suc.prems st by (simp_all add: field_simps)
  from Suc.IH [OF st(1) this] show ?case
    by (simp add: st field_simps)
qed

lemma nineAuras_facts:
  "running nineAuras" "auraCount nineAuras = 9" "score nineAuras = 9"
  "speed nineAuras = 5 + 9 / 1000" "\<not> isFlowState nineAuras" "flowStateTimer nineAuras = None"
  "reachable nineAuras" "playerLane nineAuras = 1"
  using collect_auras [of started 9] running_started
  by (simp_all add: nineAuras_def started_fields reachable_run reachable_started)

lemma powered_facts:
  "running powered" "auraCount powered = 0" "score powered = 10" "isFlowState powered"
  "flowStateTimer powered = Some 10000" "gameState powered = PLAYING" "reachable powered"
proof -
  note r = nineAuras_facts(1)
  have n: "inRun nineAuras" and i: "loopInv nineAuras" and p: "pendingFrame nineAuras = Some startView"
    and l: "lanes nineAuras"
    using r by (simp_all add: running_def inRun_def)
  have h: "\<not> js_gt 0 (v_highScore startView)"
    by (simp add: startView_def)
  have a: "activates envAura nineAuras"
    by (simp add: activates_def hits_envAura [OF n] nineAuras_facts)
  note fs = frame_summary [OF i p l, of envAura] frame_summary_store [OF i p h, of envAura]
  show "running powered"
    using r fs a loopInv_Frame [OF i, of envAura]
    by (simp add: powered_def running_def inRun_def hits_envAura [OF n] obstacles_envAura [OF r]
        SPEED_INCREMENT_def nineAuras_facts)
  show "auraCount powered = 0"
    using fs a by (simp add: powered_def)
  show "score powered = 10"
    using fs by (simp add: powered_def nineAuras_facts)
  show "isFlowState powered"
    using fs a by (simp add: powered_def)
  show "flowStateTimer powered = Some 10000"
    using fs a r by (simp add: powered_def running_def inRun_def FLOW_STATE_DURATION_def)
  show "gameState powered = PLAYING"
    using fs by (simp add: powered_def hits_envAura [OF n])
  show "reachable powered"
    unfolding powered_def by (intro reachable_step nineAuras_facts)
qed

text \<open>A frame in which a block reaches the lane of the frame loop.\<close>

lemma running_envBlock:
  assumes r: "running g"
  shows "gameState (step envBlock Frame g) = GAME_OVER"
    and "score (step envBlock Frame g) = score g + 1"
    and "isFlowState (step envBlock Frame g) = isFlowState g"
    and "flowStateTimer (step envBlock Frame g) = None"
    and "shakeTimer (step envBlock Frame g) = shakeTimer g"
    and "highScore (step envBlock Frame g) = Num 0"
    and "storage (step envBlock Frame g) = None"
    and "setItemLog (step envBlock Frame g) = []"
    and "clock (step envBlock Frame g) = 0"
    and "loopInv (step envBlock Frame g)"
    and "playerLane (step envBlock Frame g) = playerLane g"
proof -
  have n: "inRun g" and i: "loopInv g" and p: "pendingFrame g = Some startView" and l: "lanes g"
    using r by (simp_all add: running_def inRun_def)
  have h: "\<not> js_gt 0 (v_highScore startView)"
    by (simp add: startView_def)
  have a: "\<not> activates envBlock g"
    by (simp add: activates_def hits_envBlock [OF n])
  note fs = frame_summary [OF i p l, of envBlock] frame_summary_store [OF i p h, of envBlock]
  show "gameState (step envBlock Frame g) = GAME_OVER"
    using fs by (simp add: hits_envBlock [OF n])
  show "score (step envBlock Frame g) = score g + 1"
    using fs by simp
  show "isFlowState (step envBlock Frame g) = isFlowState g"
    using fs a by simp
  show "flowStateTimer (step envBlock Frame g) = None"
    using fs a by (simp add: hits_envBlock [OF n])
  show "shakeTimer (step envBlock Frame g) = shakeTimer g"
    using fs a by (simp add: hits_envBlock [OF n])
  show "highScore (step envBlock Frame g) = Num 0"
    using fs n by (simp add: inRun_def)
  show "storage (step envBlock Frame g) = None"
    using fs n by (simp add: inRun_def)
  show "setItemLog (step envBlock Frame g) = []"
    using fs n by (simp add: inRun_def)
  show "clock (step envBlock Frame g) = 0"
    using fs n by (simp add: inRun_def)
  show "loopInv (step envBlock Frame g)"
    by (rule loopInv_Frame [OF i])
  show "playerLane (step envBlock Frame g) = playerLane g"
    using fs by simp
qed

lemma running_envQuiet:
  assumes r: "running g" and s: "speed g + 1 / 1000 \<le> 6"
  shows "running (step envQuiet Frame g)"
    and "score (step envQuiet Frame g) = score g + 1"
proof -
  have n: "inRun g" and i: "loopInv g" and p: "pendingFrame g = Some startView" and l: "lanes g"
    using r by (simp_all add: running_def inRun_def)
  have h: "\<not> js_gt 0 (v_highScore startView)"
    by (simp add: startView_def)
  have a: "\<not> activates envQuiet g"
    by (simp add: activates_def hits_envQuiet [OF n])
  note fs = frame_summary [OF i p l, of envQuiet] frame_summary_store [OF i p h, of envQuiet]
  show "running (step envQuiet Frame g)"
    using r s fs a loopInv_Frame [OF i, of envQuiet]
    by (simp add: running_def inRun_def hits_envQuiet [OF n] obstacles_envQuiet [OF r] SPEED_INCREMENT_def)
  show "score (step envQuiet Frame g) = score g + 1"
    using fs by simp
qed

subsection \<open>A frame, whether or not React has work marked\<close>

lemma frame_general:
  assumes i: "loopInv g" and p: "pendingFrame g = Some v"
  shows "gameState (step e Frame g) = (if blockHit e g then GAME_OVER else PLAYING)"
    and "pendingFrame (step e Frame g) = (if blockHit e g then None else Some v)"
    and "score (step e Frame g) = score g + 1"
    and "speed (step e Frame g) = speed g + SPEED_INCREMENT"
    and "clock (step e Frame g) = clock g"
    and "playerLane (step e Frame g) = playerLane g"
    and "obstacles (step e Frame g) =
           map (advance (speed g + SPEED_INCREMENT))
             (filter (\<lambda>obs. \<not> hits v e (advance (speed g + SPEED_INCREMENT) obs) \<and>
                            onScreen e (advance (speed g + SPEED_INCREMENT) obs))
                (obstacles (beforeFilter e (g\<lparr>drawn := 0\<rparr>))))"
    and "lanes (step e Frame g)"
proof -
  let ?g' = "g\<lparr>drawn := 0, pendingFrame := None\<rparr>"
  let ?u = "update v e ?g'"
  have v: "v_gameState v = PLAYING" "\<not> v_isFlowState v"
    and gs: "gameState g = PLAYING" "effectDep g = PLAYING"
    using i p by (auto simp add: loopInv_def)
  have sn: "struck v e ?g' = struckNow e g"
    using p by (simp add: struckNow_def struck_pendingFrame)
  have st: "effectDep ?u = PLAYING"
    "clock ?u = clock g" "playerLane ?u = playerLane g" "pendingFrame ?u = Some v"
    "speed ?u = speed g + SPEED_INCREMENT"
    using update_static [OF v(1), of e ?g'] gs by simp_all
  have gu: "gameState ?u = (if blockHit e g then GAME_OVER else PLAYING)"
    using v gs by (simp add: update_gameState sn blockHit_def)
  have su: "score ?u = score g + 1"
    using v by (simp add: update_score)
  have ou: "obstacles ?u =
           map (advance (speed g + SPEED_INCREMENT))
             (filter (\<lambda>obs. \<not> hits v e (advance (speed g + SPEED_INCREMENT) obs) \<and>
                            onScreen e (advance (speed g + SPEED_INCREMENT) obs))
                (obstacles (beforeFilter e (g\<lparr>drawn := 0\<rparr>))))"
    using v by (simp add: update_obstacles beforeFilter_pendingFrame)
  note fl = flushAura_static [of e ?u]
  note stp = step_Frame_render [OF i p, of e]
  show "gameState (step e Frame g) = (if blockHit e g then GAME_OVER else PLAYING)"
    using fl by (simp add: stp runEffect_fields gu)
  show "pendingFrame (step e Frame g) = (if blockHit e g then None else Some v)"
    using fl by (simp add: stp runEffect_fields gu st)
  show "score (step e Frame g) = score g + 1"
    using fl by (simp add: stp runEffect_fields su)
  show "speed (step e Frame g) = speed g + SPEED_INCREMENT"
    using fl by (simp add: stp runEffect_fields st)
  show "clock (step e Frame g) = clock g"
    using fl by (simp add: stp runEffect_fields st)
  show "playerLane (step e Frame g) = playerLane g"
    using fl by (simp add: stp runEffect_fields st)
  show "obstacles (step e Frame g) =
           map (advance (speed g + SPEED_INCREMENT))
             (filter (\<lambda>obs. \<not> hits v e (advance (speed g + SPEED_INCREMENT) obs) \<and>
                            onScreen e (advance (speed g + SPEED_INCREMENT) obs))
                (obstacles (beforeFilter e (g\<lparr>drawn := 0\<rparr>))))"
    using fl by (simp add: stp runEffect_fields ou)
  show "lanes (step e Frame g)"
    by (simp add: stp runEffect_fields)
qed

subsection \<open>A frame when React has no work marked\<close>

text \<open>
  An aura is picked up with the count of the last render at 9 or more: the updater runs
  in the \<open>filter\<close> callback, \<open>activateFlowState\<close> with it, and the shake that line 196
  asks for replaces the one \<open>activateFlowState\<close> has just armed.
\<close>

lemma callback_eager:
  assumes "\<not> lanes g" and "9 \<le> auraCount g" and "\<not> v_isFlowState v"
    and "hits v e (advance (speed g) obs)" and "o_type obs = AURA"
  shows "auraQueue (snd (obstacleCallback v e obs g)) =
           auraQueue g @ [SetAura 0, EagerAura (auraCount g + 1)]"
    and "isFlowState (snd (obstacleCallback v e obs g))"
    and "flowStateTimer (snd (obstacleCallback v e obs g)) = Some (clock g + FLOW_STATE_DURATION)"
    and "shakeTimer (snd (obstacleCallback v e obs g)) = Some (clock g + 100)"
  using assms setAuraCountUpdater_eager [OF assms(1,2,3), of e]
  by (simp_all add: callback_unfold createParticles_eq triggerShake_fields setAuraCountUpdater_fields)

lemma frame_eager:
  assumes i: "loopInv g" and p: "pendingFrame g = Some v" and l: "\<not> lanes g"
    and c: "9 \<le> auraCount g"
    and o: "obstacles (beforeFilter e (g\<lparr>drawn := 0\<rparr>)) = [obs]"
    and h: "hits v e (advance (speed g + SPEED_INCREMENT) obs)" and a: "o_type obs = AURA"
  shows "auraCount (step e Frame g) = auraCount g + 1"
    and "isFlowState (step e Frame g)"
    and "flowStateTimer (step e Frame g) = Some (clock g + FLOW_STATE_DURATION)"
    and "shakeTimer (step e Frame g) = Some (clock g + 100)"
proof -
  let ?g' = "g\<lparr>drawn := 0, pendingFrame := None\<rparr>"
  let ?b = "beforeFilter e ?g'"
  let ?c = "snd (obstacleCallback v e obs ?b)"
  let ?u = "update v e ?g'"
  have v: "v_gameState v = PLAYING" "\<not> v_isFlowState v" and q: "auraQueue g = []"
    using i p by (auto simp add: loopInv_def)
  have b: "\<not> lanes ?b" "9 \<le> auraCount ?b" "hits v e (advance (speed ?b) obs)"
    "obstacles ?b = [obs]" "auraQueue ?b = []" "clock ?b = clock g"
    using l c h o q by (simp_all add: beforeFilter_static beforeFilter_pendingFrame)
  note ce = callback_eager [OF b(1,2) v(2) b(3) a]
  have "snd (filterObstacles v e [obs] ?b) = ?c"
    by (simp add: Let_def split: prod.splits)
  then have u: "?u = afterFilter v e (?c\<lparr>obstacles := fst (filterObstacles v e [obs] ?b)\<rparr>)"
    by (simp add: update_unfold [OF v(1)] b(4) del: filterObstacles.simps)
  have uq: "auraQueue ?u = [SetAura 0, EagerAura (auraCount g + 1)]"
    and uf: "isFlowState ?u"
    and ut: "flowStateTimer ?u = Some (clock g + FLOW_STATE_DURATION)"
    and us: "shakeTimer ?u = Some (clock g + 100)"
    using ce b(5,6) by (simp_all add: u afterFilter_static beforeFilter_static)
  note stp = step_Frame_render [OF i p, of e]
  show "auraCount (step e Frame g) = auraCount g + 1"
    by (simp add: stp runEffect_fields flushAura_eager [OF uq])
  show "isFlowState (step e Frame g)"
    by (simp add: stp runEffect_fields flushAura_eager [OF uq] uf)
  show "flowStateTimer (step e Frame g) = Some (clock g + FLOW_STATE_DURATION)"
    by (simp add: stp runEffect_fields flushAura_eager [OF uq] ut)
  show "shakeTimer (step e Frame g) = Some (clock g + 100)"
    by (simp add: stp runEffect_fields flushAura_eager [OF uq] us)
qed

lemma obstacles_envAura_before:
  assumes "inRun g"
  shows "obstacles (beforeFilter envAura (g\<lparr>drawn := 0\<rparr>)) =
           [\<lparr>o_id = 0, o_lane = 1, o_y = - 100, o_type = AURA\<rparr>]"
    and "hits startView envAura
           (advance (speed g + SPEED_INCREMENT) \<lparr>o_id = 0, o_lane = 1, o_y = - 100, o_type = AURA\<rparr>)"
  using assms
  by (simp_all add: inRun_def beforeFilter_obstacles
        envAura_def tinyWindow_def startView_def hits_def collides_def laneCenter_def advance_def
        LANES_def LANE_WIDTH_def PLAYER_SIZE_def OBSTACLE_SIZE_def SPEED_INCREMENT_def abs_if
        floor_three_halves)

lemma obstacles_inRun:
  assumes "inRun g"
  shows "obstacles (step envAura Frame g) = []"
proof -
  have i: "loopInv g" and p: "pendingFrame g = Some startView"
    using assms by (simp_all add: inRun_def)
  show ?thesis
    using assms obstacles_envAura_before [OF assms]
    by (simp add: frame_general(7) [OF i p])
qed

text \<open>The tenth aura and those after it, picked up while React has no work marked.\<close>

lemma idle_envAura:
  assumes r: "idle g" and c: "9 \<le> auraCount g" and s: "speed g + 1 / 1000 \<le> 6"
  shows "running (step envAura Frame g)"
    and "auraCount (step envAura Frame g) = auraCount g + 1"
    and "isFlowState (step envAura Frame g)"
    and "flowStateTimer (step envAura Frame g) = Some 10000"
    and "shakeTimer (step envAura Frame g) = Some 100"
    and "playerLane (step envAura Frame g) = playerLane g"
    and "gameState (step envAura Frame g) = PLAYING"
    and "speed (step envAura Frame g) = speed g + 1 / 1000"
proof -
  have n: "inRun g" and i: "loopInv g" and p: "pendingFrame g = Some startView" and l: "\<not> lanes g"
    and k: "clock g = 0"
    using r by (simp_all add: idle_def inRun_def)
  have h: "\<not> js_gt 0 (v_highScore startView)"
    by (simp add: startView_def)
  note ob = obstacles_envAura_before [OF n]
  note fe = frame_eager [OF i p l c ob(1) ob(2)]
  note fg = frame_general [OF i p, of envAura] frame_summary_store [OF i p h, of envAura]
  show "running (step envAura Frame g)"
    using n s fg loopInv_Frame [OF i, of envAura]
    by (simp add: running_def inRun_def hits_envAura [OF n] obstacles_inRun [OF n] SPEED_INCREMENT_def)
  show "auraCount (step envAura Frame g) = auraCount g + 1"
    using fe by simp
  show "isFlowState (step envAura Frame g)"
    using fe by simp
  show "flowStateTimer (step envAura Frame g) = Some 10000"
    using fe k by (simp add: FLOW_STATE_DURATION_def)
  show "shakeTimer (step envAura Frame g) = Some 100"
    using fe k by simp
  show "playerLane (step envAura Frame g) = playerLane g"
    using fg by simp
  show "gameState (step envAura Frame g) = PLAYING"
    using fg by (simp add: hits_envAura [OF n])
  show "speed (step envAura Frame g) = speed g + 1 / 1000"
    using fg by (simp add: SPEED_INCREMENT_def)
qed

subsection \<open>Lanes, timers\<close>

lemma step_KeyDown_lane:
  "playerLane (step e (KeyDown key) g) =
     (if gameState g \<noteq> PLAYING then playerLane g
      else if key = ''ArrowRight'' then min 2 (playerLane g + 1)
      else if key = ''ArrowLeft'' then max 0 (playerLane g - 1)
      else playerLane g)"
  by (simp add: step_def commit_static handle_def handleKeyDown_def render_def setters LANES_def Let_def)

lemma step_TouchStart_lane:
  "playerLane (step e (TouchStart touchX) g) =
     (if gameState g \<noteq> PLAYING then playerLane g
      else if touchX < e_innerWidth e / 2 then max 0 (playerLane g - 1)
      else min 2 (playerLane g + 1))"
  by (simp add: step_def commit_static handle_def handleTouchStart_def render_def setters LANES_def)

lemma shift_keeps_lane_in_range:
  "isShift c \<Longrightarrow> playerLane g \<in> {0, 1, 2} \<Longrightarrow> playerLane (step e c g) \<in> {0, 1, 2}"
  by (cases c) (auto simp add: step_KeyDown_lane step_TouchStart_lane)

lemma shifts_keep_lane_in_range:
  "\<forall>ec \<in> set cs. isShift (snd ec) \<Longrightarrow> playerLane g \<in> {0, 1, 2} \<Longrightarrow>
   playerLane (run cs g) \<in> {0, 1, 2}"
proof (induction cs arbitrary: g)
  case Nil
  then show ?case by simp
next
  case (Cons ec cs)
  have "playerLane (step (fst ec) (snd ec) g) \<in> {0, 1, 2}"
    using Cons.prems by (intro shift_keeps_lane_in_range) simp_all
  then show ?case using Cons by simp
qed

text \<open>
  The left arrow during a run. If the player is in the left lane already, React drops
  the render, or asks for none, and has no work marked afterwards.
\<close>

lemma inRun_ArrowLeft:
  assumes n: "inRun g"
  shows "inRun (step e (KeyDown ''ArrowLeft'') g)"
    and "lanes (step e (KeyDown ''ArrowLeft'') g) = (playerLane g \<noteq> 0)"
    and "playerLane (step e (KeyDown ''ArrowLeft'') g) = max 0 (playerLane g - 1)"
    and "auraCount (step e (KeyDown ''ArrowLeft'') g) = auraCount g"
    and "isFlowState (step e (KeyDown ''ArrowLeft'') g) = isFlowState g"
    and "speed (step e (KeyDown ''ArrowLeft'') g) = speed g"
    and "score (step e (KeyDown ''ArrowLeft'') g) = score g"
    and "gameState (step e (KeyDown ''ArrowLeft'') g) = PLAYING"
proof -
  let ?g = "g\<lparr>drawn := 0\<rparr>"
  let ?h = "setPlayerLane (\<lambda>l. max 0 (l - 1)) ?g"
  have i: "loopInv g" and p: "pendingFrame g = Some startView"
    using n by (simp_all add: inRun_def)
  have gs: "gameState g = PLAYING" "effectDep g = PLAYING" "auraQueue g = []" "\<not> scheduled g"
    "lastRender g = hooksOf g" "playerLane g \<in> {0, 1, 2}"
    using i p by (auto simp add: loopInv_def)
  have stp: "step e (KeyDown ''ArrowLeft'') g = commit e ?h"
    using gs by (simp add: step_def handle_def handleKeyDown_def render_def)
  have hq: "auraQueue ?h = []" and he: "gameState ?h = effectDep ?h"
    using gs by (simp_all add: setters)
  have fl: "flushAura e ?h = ?h" by (rule flushAura_Nil [OF hq])
  have pf: "pendingFrame (commit e ?h) = pendingFrame g"
    using he by (simp add: commit_def fl runEffect_fields Let_def) (simp add: setters)
  show "inRun (step e (KeyDown ''ArrowLeft'') g)"
    using n pf loopInv_KeyDown [OF i, of e "''ArrowLeft''"]
    by (simp add: inRun_def stp commit_static) (simp add: setters)
  have "lanes (commit e ?h) = (if scheduled ?h then hooksOf ?h \<noteq> lastRender ?h else lanes ?h)"
    by (simp add: commit_def fl runEffect_fields Let_def)
  then show "lanes (step e (KeyDown ''ArrowLeft'') g) = (playerLane g \<noteq> 0)"
    using gs by (auto simp add: stp setters hooksOf_def)
  show "playerLane (step e (KeyDown ''ArrowLeft'') g) = max 0 (playerLane g - 1)"
    using gs by (simp add: step_KeyDown_lane)
  show "auraCount (step e (KeyDown ''ArrowLeft'') g) = auraCount g"
    by (simp add: stp commit_quiet [OF hq]) (simp add: setters)
  show "isFlowState (step e (KeyDown ''ArrowLeft'') g) = isFlowState g"
    by (simp add: stp commit_quiet [OF hq]) (simp add: setters)
  show "speed (step e (KeyDown ''ArrowLeft'') g) = speed g"
    by (simp add: stp commit_static) (simp add: setters)
  show "score (step e (KeyDown ''ArrowLeft'') g) = score g"
    by (simp add: stp commit_static) (simp add: setters)
  show "gameState (step e (KeyDown ''ArrowLeft'') g) = PLAYING"
    using gs by (simp add: stp commit_static) (simp add: setters)
qed

text \<open>Time passes with no expiry of power mode pending: only the shake timer can fire.\<close>

lemma step_Elapse_shake:
  assumes i: "loopInv g" and f: "flowStateTimer g = None"
  shows "isFlowState (step e (Elapse d) g) = isFlowState g"
    and "clock (step e (Elapse d) g) = clock g + d"
    and "shakeTimer (step e (Elapse d) g) =
           (case shakeTimer g of None \<Rightarrow> None
            | Some t \<Rightarrow> if t \<le> clock g + d then None else Some t)"
    and "gameState (step e (Elapse d) g) = gameState g"
proof -
  let ?g = "g\<lparr>drawn := 0, clock := clock g + d\<rparr>"
  have gs: "auraQueue g = []" "\<not> scheduled g"
    using i by (auto simp add: loopInv_def)
  have c: "commit e (fireFlowStateTimer ?g) = ?g"
    using f gs by (simp add: fireFlowStateTimer_def commit_none)
  have stp: "step e (Elapse d) g = commit e (fireShakeTimer ?g)"
    using f by (simp add: step_Elapse c split: option.splits)
  have q: "auraQueue (fireShakeTimer ?g) = []"
    using gs by (simp add: fireShakeTimer_def setters split: option.splits)
  show "isFlowState (step e (Elapse d) g) = isFlowState g"
    by (simp add: stp commit_quiet [OF q]) (simp add: fireShakeTimer_def setters split: option.splits)
  show "clock (step e (Elapse d) g) = clock g + d"
    by (simp add: stp commit_static) (simp add: fireShakeTimer_def setters split: option.splits)
  show "shakeTimer (step e (Elapse d) g) =
           (case shakeTimer g of None \<Rightarrow> None
            | Some t \<Rightarrow> if t \<le> clock g + d then None else Some t)"
    by (simp add: stp commit_quiet [OF q]) (simp add: fireShakeTimer_def setters split: option.splits)
  show "gameState (step e (Elapse d) g) = gameState g"
    by (simp add: stp commit_static) (simp add: fireShakeTimer_def setters split: option.splits)
qed




subsection \<open>What the closures read\<close>

text \<open>The view of the frame loop, in every reachable state.\<close>

lemma frame_closure_view:
  "reachable g \<Longrightarrow> pendingFrame g = Some v \<Longrightarrow>
   v_gameState v = PLAYING \<and> \<not> v_isFlowState v \<and> v_score v = 0 \<and> v_playerLane v = 1 \<and>
   v_highScore v = highScore g"
  using reachable_inv [of g] by (simp add: loopInv_def)

text \<open>
  So the comparison of line 134 is \<open>0 > highScore\<close>: a frame never writes a high score
  that is not negative, whatever the score of the run.
\<close>

lemma high_score_frozen:
  assumes "reachable g" and "highScore g = Num h" and "0 \<le> h"
  shows "highScore (step e Frame g) = highScore g \<and> storage (step e Frame g) = storage g \<and>
         setItemLog (step e Frame g) = setItemLog g"
proof (cases "pendingFrame g")
  case None
  have i: "loopInv g" using assms(1) by (rule reachable_inv)
  have "step e Frame g = g\<lparr>drawn := 0\<rparr>"
    using i by (simp add: step_Frame_None [OF None] commit_none loopInv_def)
  then show ?thesis by simp
next
  case (Some v)
  have i: "loopInv g" using assms(1) by (rule reachable_inv)
  have "\<not> js_gt 0 (v_highScore v)"
    using frame_closure_view [OF assms(1) Some] assms(2,3) by simp
  then show ?thesis by (rule frame_summary_store [OF i Some])
qed

text \<open>
  And the test of line 184 is against the middle lane: a frame of a reachable state ends
  the run exactly when a block reaches the middle lane, wherever the player is.
\<close>

lemma frame_ends_run:
  assumes "reachable g" and "pendingFrame g = Some v"
  shows "gameState (step e Frame g) = GAME_OVER \<longleftrightarrow>
         (\<exists>obs \<in> set (obstacles (beforeFilter e (g\<lparr>drawn := 0\<rparr>))).
            o_type obs = BLOCK \<and>
            hits (v\<lparr>v_playerLane := 1\<rparr>) e (advance (speed g + SPEED_INCREMENT) obs))"
proof -
  have i: "loopInv g" using assms(1) by (rule reachable_inv)
  have "v_playerLane v = 1"
    using frame_closure_view [OF assms] by simp
  then have "v\<lparr>v_playerLane := 1\<rparr> = v" by (cases v) simp
  then show ?thesis
    using assms(2)
    by (auto simp add: frame_general(1) [OF i assms(2)] blockHit_def struckNow_def struck_def
        beforeFilter_static beforeFilter_pendingFrame)
qed

text \<open>Lines 199-203, for a closure that sees power mode on.\<close>

lemma update_in_power_mode:
  "v_gameState v = PLAYING \<Longrightarrow> v_isFlowState v \<Longrightarrow>
   gameState (update v e g) = gameState g \<and>
   score (update v e g) =
     score g + 1 + 50 * int (length (filter (\<lambda>obs. o_type obs = BLOCK) (struck v e g))) \<and>
   obstacles (update v e g) =
     survivors v e (speed g + SPEED_INCREMENT) (obstacles (beforeFilter e g))"
  by (simp add: update_gameState update_score update_obstacles survivors_def)

text \<open>Lines 134-137.\<close>

lemma endGame_store:
  "setItemLog (endGame v e g) =
     (if js_gt (v_score v) (v_highScore v) then setItemLog g @ [toString (v_score v)]
      else setItemLog g) \<and>
   highScore (endGame v e g) =
     (if js_gt (v_score v) (v_highScore v) then Num (v_score v) else highScore g)"
  by (simp add: endGame_fields)

subsection \<open>The runs of the claims\<close>

lemma atNine_facts:
  "idle atNine" "auraCount atNine = 9" "\<not> isFlowState atNine" "gameState atNine = PLAYING"
  "playerLane atNine = 0" "speed atNine = 5 + 9 / 1000" "reachable atNine"
proof -
  let ?s = "step envQuiet (KeyDown ''ArrowLeft'') nineAuras"
  have n: "inRun nineAuras" using nineAuras_facts(1) by (simp add: running_def)
  note a = inRun_ArrowLeft [OF n, of envQuiet]
  note b = inRun_ArrowLeft [OF a(1), of envQuiet]
  have e: "atNine = step envQuiet (KeyDown ''ArrowLeft'') ?s" by (simp add: atNine_def)
  show "idle atNine" using a b by (simp add: e idle_def nineAuras_facts)
  show "auraCount atNine = 9" using a b by (simp add: e nineAuras_facts)
  show "\<not> isFlowState atNine" using a b by (simp add: e nineAuras_facts)
  show "gameState atNine = PLAYING" using b by (simp add: e)
  show "playerLane atNine = 0" using a b by (simp add: e nineAuras_facts)
  show "speed atNine = 5 + 9 / 1000" using a b by (simp add: e nineAuras_facts)
  show "reachable atNine" unfolding atNine_def by (intro reachable_run nineAuras_facts)
qed

lemma atTen_facts:
  "running atTen" "auraCount atTen = 10" "isFlowState atTen" "playerLane atTen = 0"
  "speed atTen = 5 + 10 / 1000" "shakeTimer atTen = Some 100" "flowStateTimer atTen = Some 10000"
  "gameState atTen = PLAYING"
proof -
  have c: "9 \<le> auraCount atNine" and s: "speed atNine + 1 / 1000 \<le> 6"
    by (simp_all add: atNine_facts)
  note a = idle_envAura [OF atNine_facts(1) c s]
  show "running atTen" using a by (simp add: atTen_def)
  show "auraCount atTen = 10" using a by (simp add: atTen_def atNine_facts)
  show "isFlowState atTen" using a by (simp add: atTen_def)
  show "playerLane atTen = 0" using a by (simp add: atTen_def atNine_facts)
  show "speed atTen = 5 + 10 / 1000" using a by (simp add: atTen_def atNine_facts)
  show "shakeTimer atTen = Some 100" using a by (simp add: atTen_def)
  show "flowStateTimer atTen = Some 10000" using a by (simp add: atTen_def)
  show "gameState atTen = PLAYING" using a by (simp add: atTen_def)
qed

lemma overTen_facts:
  "auraCount overTen = 11" "isFlowState overTen" "reachable overTen"
proof -
  let ?s = "step envQuiet (KeyDown ''ArrowLeft'') atTen"
  have n: "inRun atTen" using atTen_facts(1) by (simp add: running_def)
  note a = inRun_ArrowLeft [OF n, of envQuiet]
  have i: "idle ?s" using a by (simp add: idle_def atTen_facts)
  have c: "9 \<le> auraCount ?s" and s: "speed ?s + 1 / 1000 \<le> 6"
    using a by (simp_all add: atTen_facts)
  note b = idle_envAura [OF i c s]
  have e: "overTen = step envAura Frame ?s" by (simp add: overTen_def)
  show "auraCount overTen = 11" using a b by (simp add: e atTen_facts)
  show "isFlowState overTen" using b by (simp add: e)
  show "reachable overTen"
    unfolding overTen_def atTen_def by (intro reachable_run reachable_step atNine_facts)
qed

lemma sideStep_facts:
  "running sideStep" "playerLane sideStep = 0" "gameState sideStep = PLAYING"
  "\<not> isFlowState sideStep" "speed sideStep = 5" "reachable sideStep"
proof -
  have n: "inRun started" using running_started by (simp add: running_def)
  note a = inRun_ArrowLeft [OF n, of envQuiet]
  show "running sideStep" using a by (simp add: sideStep_def running_def started_fields)
  show "playerLane sideStep = 0" using a by (simp add: sideStep_def started_fields)
  show "gameState sideStep = PLAYING" using a by (simp add: sideStep_def)
  show "\<not> isFlowState sideStep" using a by (simp add: sideStep_def started_fields)
  show "speed sideStep = 5" using a by (simp add: sideStep_def started_fields)
  show "reachable sideStep" unfolding sideStep_def by (intro reachable_step reachable_started)
qed

lemma sideStep_envLeftBlock:
  "obstacles (beforeFilter envLeftBlock (sideStep\<lparr>drawn := 0\<rparr>)) =
     [\<lparr>o_id = 0, o_lane = 0, o_y = - 100, o_type = BLOCK\<rparr>]"
  "gameState (step envLeftBlock Frame sideStep) = PLAYING"
  "obstacles (step envLeftBlock Frame sideStep) =
     [\<lparr>o_id = 0, o_lane = 0, o_y = - 94999 / 1000, o_type = BLOCK\<rparr>]"
proof -
  have n: "inRun sideStep" and i: "loopInv sideStep" and p: "pendingFrame sideStep = Some startView"
    and o: "obstacles sideStep = []"
    using sideStep_facts(1) by (simp_all add: running_def inRun_def)
  show b: "obstacles (beforeFilter envLeftBlock (sideStep\<lparr>drawn := 0\<rparr>)) =
     [\<lparr>o_id = 0, o_lane = 0, o_y = - 100, o_type = BLOCK\<rparr>]"
    using o by (simp add: beforeFilter_obstacles sideStep_facts envLeftBlock_def tinyWindow_def
        SPEED_INCREMENT_def LANES_def)
  show "gameState (step envLeftBlock Frame sideStep) = PLAYING"
    by (simp add: frame_general(1) [OF i p] hits_envLeftBlock [OF n])
  show "obstacles (step envLeftBlock Frame sideStep) =
     [\<lparr>o_id = 0, o_lane = 0, o_y = - 94999 / 1000, o_type = BLOCK\<rparr>]"
    unfolding frame_general(7) [OF i p] b
    by (simp add: sideStep_facts
        envLeftBlock_def tinyWindow_def startView_def hits_def collides_def laneCenter_def advance_def
        onScreen_def LANE_WIDTH_def PLAYER_SIZE_def OBSTACLE_SIZE_def SPEED_INCREMENT_def abs_if)
qed

text \<open>
  When the updaters of a frame wait for the render, the aura that takes the count to 10
  turns power mode on and leaves the count at 0.
\<close>

lemma count_reset_when_updater_waits:
  assumes "reachable g" and "lanes g" and "activates e g"
  shows "isFlowState (step e Frame g) \<and> auraCount (step e Frame g) = 0"
proof -
  have i: "loopInv g" using assms(1) by (rule reachable_inv)
  obtain v where p: "pendingFrame g = Some v"
    using assms(3) by (cases "pendingFrame g") (simp_all add: activates_def auraHits_def struckNow_def)
  show ?thesis
    using frame_summary(3,4) [OF i p assms(2), of e] assms(3) by simp
qed

subsection \<open>Out of \<open>GAME_OVER\<close>\<close>

text \<open>Only \<open>startGame\<close> sets \<open>PLAYING\<close>: without a \<open>Start\<close> the run does not resume.\<close>

lemma fire_gameState:
  "gameState (fireFlowStateTimer g) = gameState g"
  "gameState (fireShakeTimer g) = gameState g"
  by (simp_all add: fireFlowStateTimer_def fireShakeTimer_def setters split: option.splits)

lemma handle_no_resume:
  assumes "c \<noteq> Start" and "gameState g \<noteq> PLAYING"
  shows "gameState (handle e c g) \<noteq> PLAYING"
proof (cases c)
  case Frame
  show ?thesis
  proof (cases "pendingFrame g")
    case None
    then show ?thesis using assms Frame by (simp add: handle_def)
  next
    case (Some v)
    show ?thesis
    proof (cases "v_gameState v = PLAYING")
      case True
      then show ?thesis
        using assms Frame Some by (simp add: handle_def update_gameState)
    next
      case False
      then show ?thesis
        using assms Frame Some by (simp add: handle_def update_def)
    qed
  qed
next
  case (Elapse d)
  then show ?thesis
    using assms by (simp add: handle_def elapse_def fire_gameState commit_static Let_def)
qed (use assms in \<open>simp_all add: handle_def handleKeyDown_def handleTouchStart_def render_def
       setters Let_def\<close>)

lemma step_no_resume:
  "c \<noteq> Start \<Longrightarrow> gameState g \<noteq> PLAYING \<Longrightarrow> gameState (step e c g) \<noteq> PLAYING"
  using handle_no_resume [of c "g\<lparr>drawn := 0\<rparr>" e] by (simp add: step_def commit_static)

lemma run_no_resume:
  "\<forall>ec \<in> set cs. snd ec \<noteq> Start \<Longrightarrow> gameState g \<noteq> PLAYING \<Longrightarrow>
   gameState (run cs g) \<noteq> PLAYING"
proof (induction cs arbitrary: g)
  case Nil
  then show ?case by simp
next
  case (Cons ec cs)
  have "gameState (step (fst ec) (snd ec) g) \<noteq> PLAYING"
    using Cons.prems by (intro step_no_resume) simp_all
  then show ?case using Cons by simp
qed

subsection \<open>Reading the stored high score\<close>

text \<open>An integer below \<open>2 ^ 53\<close> is a double.\<close>

lemma toDouble_small:
  "a < 2 ^ 53 \<Longrightarrow> toDouble neg a = Num ((if neg then - 1 else 1) * int a)"
proof -
  assume a: "a < 2 ^ 53"
  have "(2::nat) ^ 53 \<le> 2 ^ 1024" by (rule power_increasing) simp_all
  then have "\<not> (2::nat) ^ 1024 \<le> a" using a by linarith
  then show ?thesis using a by (simp add: toDouble_def roundToDouble_def Let_def)
qed

section \<open>The claims\<close>

text \<open>
  Claim C1 says that the aura count stays between 0 and 10, and that the aura which
  takes it to 10 turns power mode on and resets the count to 0 in the same step. The
  updater of lines 186-192 calls \<open>activateFlowState\<close> itself, so the outcome depends on
  when React runs it. When it waits for the render, the reset comes last and the count
  ends at 0 (\<open>count_reset_when_updater_waits\<close>). When React runs it at the call, the
  reset is queued before the increment and is overwritten by it. Here nine auras are
  counted and React has no work marked (\<open>atNine\<close>); the tenth aura turns power mode on
  and leaves the count at 10; the next one takes it to 11.
\<close>

theorem C1_count_not_reset:
  "reachable overTen \<and> auraCount atNine = 9 \<and> \<not> isFlowState atNine \<and>
   struckNow envAura atNine = [\<lparr>o_id = 0, o_lane = 1, o_y = - 100, o_type = AURA\<rparr>] \<and>
   atTen = step envAura Frame atNine \<and> isFlowState atTen \<and> auraCount atTen = 10 \<and>
   auraCount overTen = 11"
proof -
  have "inRun atNine" using atNine_facts(1) by (simp add: idle_def)
  then show ?thesis
    by (simp add: struckNow_envAura atNine_facts atTen_facts overTen_facts atTen_def [symmetric])
qed

text \<open>
  Claim C2. From a lane in \<open>{0, 1, 2}\<close>, any sequence of lane commands ends in a lane in
  \<open>{0, 1, 2}\<close>. While the state is \<open>PLAYING\<close>, "left" (the left arrow, or a touch in the
  left half of the window) takes lane \<open>l\<close> to \<open>max 0 (l - 1)\<close> and "right" to
  \<open>min 2 (l + 1)\<close>; in any other state a key or a touch leaves the lane as it is.
\<close>

theorem C2_lane_shifts:
  assumes "playerLane g \<in> {0, 1, 2}"
  shows "((\<forall>ec \<in> set cs. isShift (snd ec)) \<longrightarrow> playerLane (run cs g) \<in> {0, 1, 2}) \<and>
         (gameState g = PLAYING \<longrightarrow>
            playerLane (step e (KeyDown ''ArrowLeft'') g) = max 0 (playerLane g - 1) \<and>
            playerLane (step e (KeyDown ''ArrowRight'') g) = min 2 (playerLane g + 1) \<and>
            playerLane (step e (TouchStart touchX) g) =
              (if touchX < e_innerWidth e / 2 then max 0 (playerLane g - 1)
               else min 2 (playerLane g + 1))) \<and>
         (gameState g \<noteq> PLAYING \<longrightarrow>
            playerLane (step e (KeyDown key) g) = playerLane g \<and>
            playerLane (step e (TouchStart touchX) g) = playerLane g)"
  using assms shifts_keep_lane_in_range [of cs g]
  by (simp add: step_KeyDown_lane step_TouchStart_lane)

text \<open>In the started game, and in the menu.\<close>

theorem C2_lane_shifts_witness:
  "playerLane (run [(envQuiet, KeyDown ''ArrowRight''), (envQuiet, KeyDown ''ArrowRight''),
                    (envQuiet, TouchStart 10)] started) \<in> {0, 1, 2} \<and>
   playerLane (step envQuiet (KeyDown ''ArrowRight'') started) = 2 \<and>
   playerLane (step envQuiet (TouchStart 10) started) = 0 \<and>
   playerLane (step envQuiet (KeyDown ''ArrowLeft'') (init None)) = 1"
  using C2_lane_shifts [of started "[(envQuiet, KeyDown ''ArrowRight''), (envQuiet, KeyDown ''ArrowRight''),
                    (envQuiet, TouchStart 10)]" envQuiet 10 "''ArrowLeft''"]
    C2_lane_shifts [of "init None" "[]" envQuiet 10 "''ArrowLeft''"]
  by (simp add: started_fields init_def envQuiet_def tinyWindow_def)

text \<open>
  Claim C3 says that a block which collides with the player while power mode is off ends
  the run. The test of line 184 reads \<open>playerLane\<close> from the closure of the frame loop,
  where it is the middle lane (\<open>frame_closure_view\<close>), so a frame ends the run exactly
  when a block reaches the middle lane (\<open>frame_ends_run\<close>). Here the player has moved to
  the left lane and power mode is off. A block comes down the left lane: after the frame
  it overlaps the player, it is still in the list, and the run goes on. And a block that
  comes down the middle lane, where the player is not, ends the run. (The rest of the
  claim holds: once the run has ended, it does not resume without a \<open>Start\<close>,
  \<open>run_no_resume\<close>.)
\<close>

theorem C3_block_in_player_lane_passes:
  "gameState sideStep = PLAYING \<and> playerLane sideStep = 0 \<and> \<not> isFlowState sideStep \<and>
   obstacles (beforeFilter envLeftBlock (sideStep\<lparr>drawn := 0\<rparr>)) =
     [\<lparr>o_id = 0, o_lane = 0, o_y = - 100, o_type = BLOCK\<rparr>] \<and>
   obstacles (step envLeftBlock Frame sideStep) =
     [\<lparr>o_id = 0, o_lane = 0, o_y = - 94999 / 1000, o_type = BLOCK\<rparr>] \<and>
   hits (render sideStep) envLeftBlock \<lparr>o_id = 0, o_lane = 0, o_y = - 94999 / 1000, o_type = BLOCK\<rparr> \<and>
   gameState (step envLeftBlock Frame sideStep) = PLAYING \<and>
   struckNow envBlock sideStep = [\<lparr>o_id = 0, o_lane = 1, o_y = - 100, o_type = BLOCK\<rparr>] \<and>
   \<not> hits (render sideStep) envBlock \<lparr>o_id = 0, o_lane = 1, o_y = - 94999 / 1000, o_type = BLOCK\<rparr> \<and>
   gameState (step envBlock Frame sideStep) = GAME_OVER"
proof -
  have n: "inRun sideStep" using sideStep_facts(1) by (simp add: running_def)
  have h: "hits (render sideStep) envLeftBlock \<lparr>o_id = 0, o_lane = 0, o_y = - 94999 / 1000, o_type = BLOCK\<rparr>"
    by (simp add: hits_def collides_def laneCenter_def render_def sideStep_facts envLeftBlock_def
        tinyWindow_def LANE_WIDTH_def PLAYER_SIZE_def OBSTACLE_SIZE_def)
  have m: "\<not> hits (render sideStep) envBlock \<lparr>o_id = 0, o_lane = 1, o_y = - 94999 / 1000, o_type = BLOCK\<rparr>"
    by (simp add: hits_def collides_def laneCenter_def render_def sideStep_facts envBlock_def
        tinyWindow_def LANE_WIDTH_def PLAYER_SIZE_def OBSTACLE_SIZE_def)
  show ?thesis
    using h m running_envBlock(1) [OF sideStep_facts(1)]
    by (simp add: sideStep_facts sideStep_envLeftBlock struckNow_envBlock [OF n])
qed

text \<open>
  Claim C4 says that a block hitting the player while power mode is on is destroyed for
  50 points and the run goes on. Lines 199-203 do that when the \<open>isFlowState\<close> they read
  is true (\<open>update_in_power_mode\<close>), but the frame loop reads it from the closure that
  started the run, where it is false (\<open>frame_closure_view\<close>). Here power mode is on
  after ten auras, a block hits the player, and the run ends with no bonus.
\<close>

theorem C4_block_ends_run_in_power_mode:
  "isFlowState powered \<and> gameState powered = PLAYING \<and>
   struckNow envBlock powered = [\<lparr>o_id = 0, o_lane = 1, o_y = - 100, o_type = BLOCK\<rparr>] \<and>
   gameState (step envBlock Frame powered) = GAME_OVER \<and>
   score (step envBlock Frame powered) = score powered + 1 \<and>
   isFlowState (step envBlock Frame powered)"
proof -
  have n: "inRun powered" using powered_facts(1) by (simp add: running_def)
  show ?thesis
    using running_envBlock [OF powered_facts(1)] struckNow_envBlock [OF n]
    by (simp add: powered_facts)
qed

text \<open>
  Claim C5 says that the stored high score is rewritten exactly when the final score
  exceeds it. Line 134 compares the \<open>score\<close> of the closure (\<open>endGame_store\<close>), which
  is the 0 that \<open>startGame\<close> set (\<open>frame_closure_view\<close>), so no run writes a high score
  (\<open>high_score_frozen\<close>). Here nothing is stored, the run ends with score 2, and
  nothing is written.
\<close>

theorem C5_high_score_not_written:
  "gameState lostRecord = GAME_OVER \<and> score lostRecord = 2 \<and> highScore lostRecord = Num 0 \<and>
   storage lostRecord = None \<and> setItemLog lostRecord = []"
proof -
  have s: "speed started + 1 / 1000 \<le> 6"
    by (simp add: started_fields)
  note q = running_envQuiet [OF running_started s]
  have "lostRecord = step envBlock Frame (step envQuiet Frame started)"
    by (simp add: lostRecord_def started_def)
  then show ?thesis
    using running_envBlock [OF q(1)] q(2) by (simp add: started_fields)
qed

text \<open>
  Claim C6 says the high score starts at 0 whenever the stored entry is absent or not an
  integer. With the entry \<open>abc\<close> it starts as \<open>NaN\<close>.
\<close>

theorem C6_unparseable_entry_gives_NaN:
  "initialHighScore (Some ''abc'') = NaN \<and> highScore (init (Some ''abc'')) \<noteq> Num 0"
  by (simp add: init_def initialHighScore_def parseInt_def isWhiteSpace_def isRadixDigit_def
      digitValue_def Let_def)

text \<open>
  Claim C6, amended. The high score read at startup is 0 when the entry is absent or
  empty, and otherwise what \<open>parseInt\<close> makes of the entry: the leading integer, or
  \<open>NaN\<close> when there is none. Nothing is raised: \<open>initialHighScore\<close> is total.
\<close>

theorem C6_initial_high_score:
  "highScore (init saved) = initialHighScore saved \<and>
   initialHighScore None = Num 0 \<and> initialHighScore (Some []) = Num 0 \<and>
   initialHighScore (Some (c # cs)) = parseInt (c # cs) \<and>
   parseInt ''1250'' = Num 1250 \<and> parseInt ''12abc'' = Num 12 \<and> parseInt ''high'' = NaN"
  by (simp add: init_def initialHighScore_def parseInt_def isWhiteSpace_def isRadixDigit_def
      digitValue_def toDouble_small Let_def)

text \<open>
  Claim C8 says that power mode, once on, goes off after 10 seconds. By design a run
  cannot end while power mode is on; in the code it does (claim C4), and \<open>endGame\<close>
  cancels the expiry without turning power mode off. Here power mode is turned on at
  time 0, a block ends the run before the 10 seconds are over, and at time 10000 power
  mode is still on.
\<close>

theorem C8_expiry_cancelled_by_game_over:
  "isFlowState powered \<and> flowStateTimer powered = Some 10000 \<and> clock powered = 0 \<and>
   gameState (step envBlock Frame powered) = GAME_OVER \<and>
   clock (run [(envBlock, Frame), (envQuiet, Elapse 10000)] powered) = 10000 \<and>
   isFlowState (run [(envBlock, Frame), (envQuiet, Elapse 10000)] powered)"
proof -
  note b = running_envBlock [OF powered_facts(1)]
  have "clock powered = 0"
    using powered_facts(1) by (simp add: running_def inRun_def)
  then show ?thesis
    using b by (simp add: powered_facts step_Elapse_shake [OF b(10) b(4)])
qed





end
